theory Spec2Isabelle
  imports Main "HOL-Library.Sublist"
begin

section \<open>Values of the scripting environment\<close>

text \<open>
  The routines of git2r receive and return R values (\<open>SEXP\<close>). Only the shapes the
  routines inspect are modelled: the nil value, character, logical and integer vectors,
  generic (named) lists and S4 objects with a class name and named slots. The element
  \<open>NA_character_\<close> is the string \<open>''NA''\<close>, which is what \<open>CHAR\<close> reads from it.
\<close>

datatype sexp =
    R_NilValue
  | STRSXP "string list"
  | LGLSXP "bool list"
  | INTSXP "int list"
  | VECSXP "string list" "sexp list"
  | S4SXP string "(string \<times> sexp) list"

text \<open>
  The ways a routine leaves through R's \<open>error\<close> instead of returning. The last two are
  not calls of \<open>error\<close> in the source: \<open>R_access_error\<close> is the failure raised by the R
  accessors (\<open>GET_SLOT\<close> of a missing slot, \<open>STRING_ELT\<close> outside a character vector),
  \<open>Null_dereference\<close> is a read through a NULL pointer.
\<close>

datatype r_error =
    Invalid_repository
  | Invalid_checkout_args
  | Invalid_arguments string
  | String_arg_error string string
  | Plain_error string
  | Libgit2_error int
  | Libgit2_last_error int string
  | R_access_error
  | Null_dereference

definition isString :: "sexp \<Rightarrow> bool" where
  "isString x = (case x of STRSXP _ \<Rightarrow> True | _ \<Rightarrow> False)"

definition isNewList :: "sexp \<Rightarrow> bool" where
  "isNewList x = (case x of R_NilValue \<Rightarrow> True | VECSXP _ _ \<Rightarrow> True | _ \<Rightarrow> False)"

definition is_S4SXP :: "sexp \<Rightarrow> bool" where
  "is_S4SXP x = (case x of S4SXP _ _ \<Rightarrow> True | _ \<Rightarrow> False)"

definition length_sexp :: "sexp \<Rightarrow> nat" where
  "length_sexp x = (case x of
      R_NilValue \<Rightarrow> 0
    | STRSXP xs \<Rightarrow> length xs
    | LGLSXP bs \<Rightarrow> length bs
    | INTSXP ns \<Rightarrow> length ns
    | VECSXP _ vs \<Rightarrow> length vs
    | S4SXP _ _ \<Rightarrow> 1)"

text \<open>\<open>CHAR(STRING_ELT(x, i))\<close>: the i-th string of a character vector.\<close>

definition CHAR_STRING_ELT :: "sexp \<Rightarrow> nat \<Rightarrow> r_error + string" where
  "CHAR_STRING_ELT x i = (case x of
      STRSXP xs \<Rightarrow> (if i < length xs then Inr (xs ! i) else Inl R_access_error)
    | _ \<Rightarrow> Inl R_access_error)"

text \<open>\<open>VECTOR_ELT(x, i)\<close>: the i-th element of a generic list.\<close>

definition VECTOR_ELT :: "sexp \<Rightarrow> nat \<Rightarrow> r_error + sexp" where
  "VECTOR_ELT x i = (case x of
      VECSXP _ vs \<Rightarrow> (if i < length vs then Inr (vs ! i) else Inl R_access_error)
    | _ \<Rightarrow> Inl R_access_error)"

text \<open>\<open>getAttrib(x, R_NamesSymbol)\<close>: the names of a generic list.\<close>

definition names_attrib :: "sexp \<Rightarrow> sexp" where
  "names_attrib x = (case x of VECSXP ns _ \<Rightarrow> STRSXP ns | _ \<Rightarrow> R_NilValue)"

text \<open>\<open>GET_SLOT(x, Rf_install(name))\<close>: a slot of an S4 object.\<close>

definition GET_SLOT :: "sexp \<Rightarrow> string \<Rightarrow> r_error + sexp" where
  "GET_SLOT x name = (case x of
      S4SXP _ slots \<Rightarrow> (case map_of slots name of Some v \<Rightarrow> Inr v | None \<Rightarrow> Inl R_access_error)
    | _ \<Rightarrow> Inl R_access_error)"

text \<open>\<open>CHAR(STRING_ELT(getAttrib(x, R_ClassSymbol), 0))\<close> of an S4 object.\<close>

definition class_name_of :: "sexp \<Rightarrow> r_error + string" where
  "class_name_of x = (case x of S4SXP c _ \<Rightarrow> Inr c | _ \<Rightarrow> Inl R_access_error)"

section \<open>The wrapped library\<close>

text \<open>
  Modelled from the spec: the header \<open>git2/errors.h\<close> of the wrapped library is not
  under src/. Success is 0 and every failure kind (a generic failure, \<open>NotFound\<close>,
  \<open>AlreadyExists\<close>, \<open>InvalidArgument\<close>, the end of an iteration) is a negative code of
  its own; the values are the library's.
\<close>

definition GIT_OK :: int where "GIT_OK = 0"
definition GIT_ERROR :: int where "GIT_ERROR = - 1"
definition GIT_ENOTFOUND :: int where "GIT_ENOTFOUND = - 3"
definition GIT_EEXISTS :: int where "GIT_EEXISTS = - 4"
definition GIT_EINVALID :: int where "GIT_EINVALID = - 21"
definition GIT_ITEROVER :: int where "GIT_ITEROVER = - 31"

text \<open>An object id, written as its 40 hexadecimal characters.\<close>

type_synonym oid = string

text \<open>
  Modelled from the spec: a repository as the wrapped library sees it. It is bare or
  not and has a working directory; its object store holds commits with their parent
  links; it has a configured default notes reference; and each notes reference holds
  notes, keyed by the annotated object, in the order the library iterates them.
\<close>

record git_repository =
  repo_is_bare :: bool
  repo_workdir :: string
  repo_commits :: "(oid \<times> oid list) list"
  repo_notes_ref :: "string option"
  repo_notes :: "(string \<times> (oid \<times> string) list) list"

text \<open>
  The repositories on disk, by the path they open at (the first entry of a path
  counts), and an open repository: the path it was opened at and its state.
\<close>

type_synonym world = "(string \<times> git_repository) list"

type_synonym repository_handle = "string \<times> git_repository"

text \<open>
  Modelled from the spec: \<open>git_repository_open\<close> of the wrapped library is not under
  src/. \<open>open(path) -> Repository\<close> attaches to the existing on-disk state and fails
  with \<open>RepositoryNotFound\<close>; no state is changed.
\<close>

definition git_repository_open :: "world \<Rightarrow> string \<Rightarrow> int \<times> repository_handle option" where
  "git_repository_open w path = (case map_of w path of
      Some r \<Rightarrow> (GIT_OK, Some (path, r))
    | None \<Rightarrow> (GIT_ENOTFOUND, None))"

text \<open>
  Modelled from the spec: \<open>git_repository_is_bare\<close> and \<open>git_repository_workdir\<close> of
  the wrapped library are not under src/. A repository is bare or non-bare, and
  \<open>workdir() -> optional path\<close> is absent (NULL) for a bare repository.
\<close>

definition git_repository_is_bare :: "git_repository \<Rightarrow> int" where
  "git_repository_is_bare r = (if repo_is_bare r then 1 else 0)"

definition git_repository_workdir :: "git_repository \<Rightarrow> string option" where
  "git_repository_workdir r = (if repo_is_bare r then None else Some (repo_workdir r))"

text \<open>
  Modelled from the spec: \<open>git_repository_is_empty\<close> of the wrapped library is not
  under src/. A repository created by \<open>init\<close> is empty, and it stops being empty when
  a commit is written: the empty repository is the one with no commits.
\<close>

definition git_repository_is_empty :: "git_repository \<Rightarrow> int" where
  "git_repository_is_empty r = (if repo_commits r = [] then 1 else 0)"

text \<open>
  The functions of the wrapped library and of git2r's other files that the routines
  below call and that are not under src/; the spec does not describe them, so they are
  parameters. A configuration is its list of keys and values; a revision walker is the
  list of commits it has still to yield.
\<close>

record external_functions =
  git_repository_config :: "git_repository \<Rightarrow> int \<times> (string \<times> string) list"
  git_config_set_string ::
    "(string \<times> string) list \<Rightarrow> string \<Rightarrow> string \<Rightarrow> int \<times> (string \<times> string) list"
  git_remote_load :: "git_repository \<Rightarrow> string \<Rightarrow> int"
  git_remote_fetch :: "git_repository \<Rightarrow> string \<Rightarrow> int"
  git_revwalk_new :: "git_repository \<Rightarrow> int"
  git_revwalk_push_head :: "git_repository \<Rightarrow> int \<times> oid list"
  git_commit_lookup :: "git_repository \<Rightarrow> oid \<Rightarrow> int"
  init_commit :: "oid \<Rightarrow> sexp"
  git2r_arg_check_string :: "sexp \<Rightarrow> int"
  git2r_arg_check_hex :: "sexp \<Rightarrow> int"
  git2r_error_check_string_arg :: "sexp \<Rightarrow> int"
  git2r_error_check_signature_arg :: "sexp \<Rightarrow> int"
  git2r_error_check_logical_arg :: "sexp \<Rightarrow> int"
  git2r_signature_from_arg :: "sexp \<Rightarrow> int"
  git2r_oid_from_hex_sexp :: "sexp \<Rightarrow> oid"
  git_oid_fromstr :: "string \<Rightarrow> int \<times> oid"
  odb_hash :: "string \<Rightarrow> oid"

text \<open>\<open>mkChar\<close> measures its argument with \<open>strlen\<close>, so it cannot take NULL.\<close>

definition mkChar :: "string option \<Rightarrow> r_error + string" where
  "mkChar p = (case p of None \<Rightarrow> Inl Null_dereference | Some s \<Rightarrow> Inr s)"

section \<open>git2r.c\<close>

text \<open>
  \<open>get_repository\<close>: the repository of an S4 \<open>git_repository\<close> object, or NULL
  (\<open>None\<close>).
\<close>

definition get_repository :: "world \<Rightarrow> sexp \<Rightarrow> r_error + repository_handle option" where
  "get_repository w repo =
     (if repo = R_NilValue \<or> \<not> is_S4SXP repo then Inr None
      else case class_name_of repo of Inl e \<Rightarrow> Inl e | Inr class_name \<Rightarrow>
        if class_name \<noteq> ''git_repository'' then Inr None
        else case GET_SLOT repo ''path'' of Inl e \<Rightarrow> Inl e | Inr path \<Rightarrow>
          if path = R_NilValue then Inr None
          else case CHAR_STRING_ELT path 0 of Inl e \<Rightarrow> Inl e | Inr p \<Rightarrow>
            if fst (git_repository_open w p) < 0 then Inr None
            else Inr (snd (git_repository_open w p)))"

subsection \<open>checkout\<close>

datatype CHECKOUT_ACTION = CHECKOUT_COMMIT | CHECKOUT_TAG | CHECKOUT_TREE | CHECKOUT_HEAD

text \<open>The part of \<open>checkout\<close> that determines the action from the treeish.\<close>

definition checkout_action_of :: "sexp \<Rightarrow> r_error + CHECKOUT_ACTION" where
  "checkout_action_of treeish =
     (if is_S4SXP treeish then
        (case class_name_of treeish of Inl e \<Rightarrow> Inl e | Inr class_name \<Rightarrow>
           if class_name = ''git_commit'' then Inr CHECKOUT_COMMIT
           else if class_name = ''git_tag'' then Inr CHECKOUT_TAG
           else if class_name = ''git_tree'' then Inr CHECKOUT_TREE
           else Inl Invalid_checkout_args)
      else if isString treeish \<and> length_sexp treeish = 1
              \<and> CHAR_STRING_ELT treeish 0 = Inr ''HEAD'' then Inr CHECKOUT_HEAD
      else Inl Invalid_checkout_args)"

text \<open>
  The \<open>switch\<close> of \<open>checkout\<close>: what each action does to the repositories on disk.
  Every case of the source is a comment followed by \<open>break\<close>.
\<close>

fun checkout_switch :: "CHECKOUT_ACTION \<Rightarrow> repository_handle \<Rightarrow> world \<Rightarrow> world" where
  "checkout_switch CHECKOUT_COMMIT repository w = w"
| "checkout_switch CHECKOUT_TAG repository w = w"
| "checkout_switch CHECKOUT_TREE repository w = w"
| "checkout_switch CHECKOUT_HEAD repository w = w"

text \<open>
  \<open>checkout\<close>. The local variable \<open>err\<close> is declared without a value and no
  statement assigns it, so the value the final test reads is an input of the model
  (\<open>err\<close>), as is what \<open>giterr_last()\<close> returns then (NULL, or the class and
  message of an earlier failure of the library). The result is paired with the
  repositories on disk after the call.
\<close>

definition checkout ::
  "int \<Rightarrow> (int \<times> string) option \<Rightarrow> world \<Rightarrow> sexp \<Rightarrow> sexp \<Rightarrow> (r_error + sexp) \<times> world" where
  "checkout err giterr_last w repo treeish =
     (if repo = R_NilValue \<or> treeish = R_NilValue then (Inl Invalid_checkout_args, w)
      else case checkout_action_of treeish of Inl e \<Rightarrow> (Inl e, w) | Inr checkout_action \<Rightarrow>
        case get_repository w repo of Inl e \<Rightarrow> (Inl e, w)
        | Inr None \<Rightarrow> (Inl Invalid_repository, w)
        | Inr (Some repository) \<Rightarrow>
            let w' = checkout_switch checkout_action repository w in
            if err < 0 then
              (case giterr_last of
                 None \<Rightarrow> (Inl Null_dereference, w')
               | Some (klass, message) \<Rightarrow> (Inl (Libgit2_last_error klass message), w'))
            else (Inr R_NilValue, w'))"

subsection \<open>config and fetch\<close>

text \<open>
  The loop of \<open>config\<close> over the indices of \<open>variables\<close>: the value of \<open>err\<close> and
  the configuration when the loop is left.
\<close>

fun config_loop ::
  "external_functions \<Rightarrow> sexp \<Rightarrow> sexp \<Rightarrow> nat list \<Rightarrow> int \<Rightarrow> (string \<times> string) list
   \<Rightarrow> r_error + (int \<times> (string \<times> string) list)" where
  "config_loop ext names variables [] err cfg = Inr (err, cfg)"
| "config_loop ext names variables (i # is) err cfg =
     (case CHAR_STRING_ELT names i of Inl e \<Rightarrow> Inl e | Inr key \<Rightarrow>
      case VECTOR_ELT variables i of Inl e \<Rightarrow> Inl e | Inr v \<Rightarrow>
      case CHAR_STRING_ELT v 0 of Inl e \<Rightarrow> Inl e | Inr val \<Rightarrow>
        let (err', cfg') = git_config_set_string ext cfg key val in
        if err' < 0 then Inr (err', cfg')
        else config_loop ext names variables is err' cfg')"

text \<open>
  \<open>config\<close>. After the label \<open>cleanup\<close> the configuration and the repository are
  freed and \<open>R_NilValue\<close> is returned; \<open>err\<close> is not read again. The result is paired
  with the value of \<open>err\<close> at the end (when the library was reached), which the caller
  does not receive.
\<close>

definition config :: "external_functions \<Rightarrow> world \<Rightarrow> sexp \<Rightarrow> sexp \<Rightarrow> (r_error + sexp) \<times> int option" where
  "config ext w repo variables =
     (if variables = R_NilValue then (Inl (Plain_error ''variables equals R_NilValue''), None)
      else if \<not> isNewList variables then (Inl (Plain_error ''variables must be a list''), None)
      else case get_repository w repo of Inl e \<Rightarrow> (Inl e, None)
        | Inr None \<Rightarrow> (Inl Invalid_repository, None)
        | Inr (Some (path, repository)) \<Rightarrow>
            let (err, cfg) = git_repository_config ext repository in
            if err < 0 then (Inr R_NilValue, Some err)
            else case config_loop ext (names_attrib variables) variables
                        [0 ..< length_sexp variables] err cfg of
                Inl e \<Rightarrow> (Inl e, None)
              | Inr (err', cfg') \<Rightarrow> (Inr R_NilValue, Some err'))"

text \<open>\<open>fetch\<close>, with the value of \<open>err\<close> at the end as for \<open>config\<close>.\<close>

definition fetch :: "external_functions \<Rightarrow> world \<Rightarrow> sexp \<Rightarrow> sexp \<Rightarrow> (r_error + sexp) \<times> int option" where
  "fetch ext w repo name =
     (if name = R_NilValue then (Inl (Plain_error ''Invalid arguments to fetch''), None)
      else if \<not> isString name then (Inl (Plain_error ''Invalid arguments to fetch''), None)
      else if length_sexp name \<noteq> 1 then (Inl (Plain_error ''Invalid arguments to fetch''), None)
      else case get_repository w repo of Inl e \<Rightarrow> (Inl e, None)
        | Inr None \<Rightarrow> (Inl Invalid_repository, None)
        | Inr (Some (path, repository)) \<Rightarrow>
            (case CHAR_STRING_ELT name 0 of Inl e \<Rightarrow> (Inl e, None) | Inr n \<Rightarrow>
               let err = git_remote_load ext repository n in
               if err < 0 then (Inr R_NilValue, Some err)
               else let err = git_remote_fetch ext repository n in
                 (Inr R_NilValue, Some err)))"

subsection \<open>is_repository, revisions, workdir\<close>

definition is_repository :: "world \<Rightarrow> sexp \<Rightarrow> r_error + sexp" where
  "is_repository w path =
     (if path = R_NilValue then Inl (Plain_error ''path equals R_NilValue'')
      else if \<not> isString path then Inl (Plain_error ''path must be a string'')
      else case CHAR_STRING_ELT path 0 of Inl e \<Rightarrow> Inl e | Inr p \<Rightarrow>
        let err = fst (git_repository_open w p) in
        if err < 0 then Inr (LGLSXP [False]) else Inr (LGLSXP [True]))"

text \<open>
  \<open>number_of_revisions\<close>: the walker is asked for the next commit until it has none,
  which leaves it exhausted.
\<close>

fun number_of_revisions :: "oid list \<Rightarrow> nat" where
  "number_of_revisions [] = 0"
| "number_of_revisions (oid # walker) = Suc (number_of_revisions walker)"

text \<open>
  The \<open>for (;;)\<close> loop of \<open>revisions\<close>: \<open>git_revwalk_next\<close> yields the next commit
  of the walker, or \<open>GIT_ITEROVER\<close> when there is none, which ends the loop with
  \<open>err = 0\<close>.
\<close>

fun revisions_loop ::
  "external_functions \<Rightarrow> git_repository \<Rightarrow> oid list \<Rightarrow> nat \<Rightarrow> sexp list \<Rightarrow> r_error + sexp list" where
  "revisions_loop ext repository [] i list = Inr list"
| "revisions_loop ext repository (oid # walker) i list =
     (let err = git_commit_lookup ext repository oid in
      if err < 0 then Inl (Libgit2_error err)
      else if i < length list
        then revisions_loop ext repository walker (Suc i) (list[i := init_commit ext oid])
        else Inl R_access_error)"

definition revisions :: "external_functions \<Rightarrow> world \<Rightarrow> sexp \<Rightarrow> r_error + sexp" where
  "revisions ext w repo =
     (case get_repository w repo of Inl e \<Rightarrow> Inl e
      | Inr None \<Rightarrow> Inl Invalid_repository
      | Inr (Some (path, repository)) \<Rightarrow>
          if git_repository_is_empty repository \<noteq> 0 then Inr (VECSXP [] [])
          else let err = git_revwalk_new ext repository in
            if err < 0 then Inl (Libgit2_error err)
            else let (err, walker) = git_revwalk_push_head ext repository in
              if err < 0 then Inl (Libgit2_error err)
              else let n = number_of_revisions walker;
                       list = replicate n R_NilValue;
                       (err, walker) = git_revwalk_push_head ext repository in
                if err < 0 then Inl (Libgit2_error err)
                else case revisions_loop ext repository walker 0 list of
                    Inl e \<Rightarrow> Inl e
                  | Inr list' \<Rightarrow> Inr (VECSXP [] list'))"

definition workdir :: "world \<Rightarrow> sexp \<Rightarrow> r_error + sexp" where
  "workdir w repo =
     (case get_repository w repo of Inl e \<Rightarrow> Inl e
      | Inr None \<Rightarrow> Inl Invalid_repository
      | Inr (Some (path, repository)) \<Rightarrow>
          (case mkChar (git_repository_workdir repository) of
             Inl e \<Rightarrow> Inl e
           | Inr s \<Rightarrow> Inr (STRSXP [s])))"

section \<open>git2r_repository.c\<close>

text \<open>
  \<open>git2r_repository_open\<close>: as \<open>get_repository\<close>, with the path slot checked by
  \<open>git2r_arg_check_string\<close>.
\<close>

definition git2r_repository_open ::
  "external_functions \<Rightarrow> world \<Rightarrow> sexp \<Rightarrow> r_error + repository_handle option" where
  "git2r_repository_open ext w repo =
     (if repo = R_NilValue \<or> \<not> is_S4SXP repo then Inr None
      else case class_name_of repo of Inl e \<Rightarrow> Inl e | Inr class_name \<Rightarrow>
        if class_name \<noteq> ''git_repository'' then Inr None
        else case GET_SLOT repo ''path'' of Inl e \<Rightarrow> Inl e | Inr path \<Rightarrow>
          if git2r_arg_check_string ext path \<noteq> 0 then Inr None
          else case CHAR_STRING_ELT path 0 of Inl e \<Rightarrow> Inl e | Inr p \<Rightarrow>
            if fst (git_repository_open w p) < 0 then Inr None
            else Inr (snd (git_repository_open w p)))"

definition git2r_repository_can_open :: "external_functions \<Rightarrow> world \<Rightarrow> sexp \<Rightarrow> r_error + sexp" where
  "git2r_repository_can_open ext w path =
     (if git2r_arg_check_string ext path \<noteq> 0
      then Inl (String_arg_error ''git2r_repository_can_open'' ''path'')
      else case CHAR_STRING_ELT path 0 of Inl e \<Rightarrow> Inl e | Inr p \<Rightarrow>
        let can_open = fst (git_repository_open w p) in
        if can_open \<noteq> 0 then Inr (LGLSXP [False]) else Inr (LGLSXP [True]))"

definition git2r_repository_workdir :: "external_functions \<Rightarrow> world \<Rightarrow> sexp \<Rightarrow> r_error + sexp" where
  "git2r_repository_workdir ext w repo =
     (case git2r_repository_open ext w repo of Inl e \<Rightarrow> Inl e
      | Inr None \<Rightarrow> Inl Invalid_repository
      | Inr (Some (path, repository)) \<Rightarrow>
          if git_repository_is_bare repository = 0 then
            (case mkChar (git_repository_workdir repository) of
               Inl e \<Rightarrow> Inl e
             | Inr wd \<Rightarrow> Inr (STRSXP [wd]))
          else Inr R_NilValue)"

subsection \<open>Discovering a repository\<close>

text \<open>
  Modelled from the spec: what \<open>discover\<close> reads of the file system. Each directory is
  named by its components from the root; it is on a device, and it may hold a repository
  marker, which gives the location of the repository.
\<close>

record filesystem =
  fs_device :: "string list \<Rightarrow> nat"
  fs_marker :: "string list \<Rightarrow> string option"

text \<open>
  Modelled from the spec: the directory a path names, as its components between \<open>/\<close>;
  \<open>cur\<close> is the component being read, reversed.
\<close>

fun split_path :: "string \<Rightarrow> string \<Rightarrow> string list" where
  "split_path [] cur = (if cur = [] then [] else [rev cur])"
| "split_path (c # cs) cur =
     (if c = CHR ''/'' then (if cur = [] then split_path cs [] else rev cur # split_path cs [])
      else split_path cs (c # cur))"

text \<open>
  Modelled from the spec: \<open>git_repository_discover\<close> of the wrapped library is not
  under src/. \<open>discover(path)\<close> walks parent directories looking for repository markers,
  stops at filesystem-device boundaries and returns nothing when not found. The walk
  takes the directory innermost component first (\<open>rdir\<close>), looks at the directory itself
  and then at its parent; unless \<open>across_fs\<close> is set it stops at the first directory
  that is not on the device the walk began on.
\<close>

fun discover_walk :: "filesystem \<Rightarrow> bool \<Rightarrow> nat \<Rightarrow> string list \<Rightarrow> string option" where
  "discover_walk fs across_fs dev [] =
     (if \<not> across_fs \<and> fs_device fs [] \<noteq> dev then None else fs_marker fs [])"
| "discover_walk fs across_fs dev (d # rdir) =
     (if \<not> across_fs \<and> fs_device fs (rev (d # rdir)) \<noteq> dev then None
      else case fs_marker fs (rev (d # rdir)) of
          Some loc \<Rightarrow> Some loc
        | None \<Rightarrow> discover_walk fs across_fs dev rdir)"

definition git_repository_discover :: "filesystem \<Rightarrow> string \<Rightarrow> int \<Rightarrow> int \<times> string option" where
  "git_repository_discover fs start_path across_fs =
     (let dir = split_path start_path [] in
      case discover_walk fs (across_fs \<noteq> 0) (fs_device fs dir) (rev dir) of
        Some loc \<Rightarrow> (GIT_OK, Some loc)
      | None \<Rightarrow> (GIT_ENOTFOUND, None))"

text \<open>
  \<open>git2r_repository_discover\<close>: \<open>across_fs\<close> is passed as 0 and there are no ceiling
  directories; \<open>GIT_ENOTFOUND\<close> is turned into \<open>R_NilValue\<close>.
\<close>

definition git2r_repository_discover ::
  "external_functions \<Rightarrow> filesystem \<Rightarrow> sexp \<Rightarrow> r_error + sexp" where
  "git2r_repository_discover ext fs path =
     (if git2r_arg_check_string ext path \<noteq> 0
      then Inl (String_arg_error ''git2r_repository_discover'' ''path'')
      else case CHAR_STRING_ELT path 0 of Inl e \<Rightarrow> Inl e | Inr p \<Rightarrow>
        let (err, buf) = git_repository_discover fs p 0 in
        if err \<noteq> GIT_OK then
          (if err = GIT_ENOTFOUND then Inr R_NilValue else Inl (Libgit2_error err))
        else case mkChar buf of Inl e \<Rightarrow> Inl e | Inr s \<Rightarrow> Inr (STRSXP [s]))"

section \<open>git2r_graph.c\<close>

text \<open>
  Modelled from the spec: the search behind \<open>is_descendant_of\<close>, a bounded search over
  the parent links read from the object store that short-circuits on the first match.
  \<open>todo\<close> are the commits still to look at, \<open>visited\<close> the commits whose parents
  have been read.
\<close>

function descendant_search ::
  "(oid \<times> oid list) list \<Rightarrow> oid list \<Rightarrow> oid list \<Rightarrow> oid \<Rightarrow> bool" where
  "descendant_search g [] visited ancestor = False"
| "descendant_search g (x # todo) visited ancestor =
     (if x = ancestor then True
      else if x \<in> set visited then descendant_search g todo visited ancestor
      else case map_of g x of
          None \<Rightarrow> descendant_search g todo visited ancestor
        | Some parents \<Rightarrow> descendant_search g (parents @ todo) (x # visited) ancestor)"
  by pat_completeness auto

termination descendant_search
proof (relation "measures [\<lambda>(g, todo, visited, a). card (fst ` set g - set visited),
                          \<lambda>(g, todo, visited, a). length todo]", goal_cases)
  case 1
  show ?case by simp
next
  case (2 g x todo visited ancestor)
  show ?case by simp
next
  case (3 g x todo visited ancestor)
  show ?case by simp
next
  case (4 g x todo visited ancestor ps)
  from 4(3) have "x \<in> fst ` set g"
    by (metis map_of_SomeD fst_conv image_eqI)
  with 4(2) have "fst ` set g - set (x # visited) \<subset> fst ` set g - set visited"
    by auto
  then have "card (fst ` set g - set (x # visited)) < card (fst ` set g - set visited)"
    by (simp add: psubset_card_mono)
  then show ?case by simp
qed

text \<open>
  Modelled from the spec: \<open>git_graph_descendant_of\<close> of the wrapped library is not
  under src/. \<open>is_descendant_of(commit, ancestor)\<close> is true iff ancestor is reachable
  by following the parent chain (any parent, not just first) from commit, excluding
  commit itself equal to ancestor; it is a bounded search over the parent links read
  from the object store, short-circuiting on the first match, and it fails with
  \<open>InvalidObject\<close> if either id does not resolve to a commit.
\<close>

definition git_graph_descendant_of :: "git_repository \<Rightarrow> oid \<Rightarrow> oid \<Rightarrow> int" where
  "git_graph_descendant_of r commit ancestor =
     (case map_of (repo_commits r) commit of
        None \<Rightarrow> GIT_EINVALID
      | Some parents \<Rightarrow>
          (case map_of (repo_commits r) ancestor of
             None \<Rightarrow> GIT_EINVALID
           | Some _ \<Rightarrow>
               if commit = ancestor then 0
               else if descendant_search (repo_commits r) parents [] ancestor then 1 else 0))"

definition git2r_graph_descendant_of ::
  "external_functions \<Rightarrow> world \<Rightarrow> sexp \<Rightarrow> sexp \<Rightarrow> r_error + sexp" where
  "git2r_graph_descendant_of ext w commit ancestor =
     (case GET_SLOT commit ''repo'' of Inl e \<Rightarrow> Inl e | Inr slot \<Rightarrow>
      case git2r_repository_open ext w slot of Inl e \<Rightarrow> Inl e
      | Inr None \<Rightarrow> Inl Invalid_repository
      | Inr (Some (path, repository)) \<Rightarrow>
          (case GET_SLOT commit ''hex'' of Inl e \<Rightarrow> Inl e | Inr slot \<Rightarrow>
             let commit_oid = git2r_oid_from_hex_sexp ext slot in
             case GET_SLOT ancestor ''hex'' of Inl e \<Rightarrow> Inl e | Inr slot \<Rightarrow>
               let ancestor_oid = git2r_oid_from_hex_sexp ext slot;
                   result = git_graph_descendant_of repository commit_oid ancestor_oid in
               if result < 0 then Inl (Libgit2_error result)
               else if result = 0 then Inr (LGLSXP [False])
               else Inr (LGLSXP [True])))"

text \<open>The parent links of the commits of an object store, as a relation.\<close>

definition parent_rel :: "(oid \<times> oid list) list \<Rightarrow> (oid \<times> oid) set" where
  "parent_rel g = {(c, p). \<exists>ps. map_of g c = Some ps \<and> p \<in> set ps}"

text \<open>
  The commits other than the ancestor whose parents the object store cannot give: the
  search ends at them.
\<close>

definition dead_ends :: "(oid \<times> oid list) list \<Rightarrow> oid \<Rightarrow> oid set" where
  "dead_ends g a = {y. map_of g y = None \<and> y \<noteq> a}"

section \<open>git2r_note.c\<close>

text \<open>
  Modelled from the spec: \<open>git_note_default_ref\<close>, \<open>git_note_read\<close>,
  \<open>git_note_create\<close> and \<open>git_note_foreach\<close> of the wrapped library are not under
  src/. Notes are kept per notes reference and keyed by the annotated object's id, the
  text of a note is a blob of the object store; \<open>create\<close> fails with
  \<open>NoteAlreadyExists\<close> unless \<open>overwrite\<close>; \<open>list\<close> defaults to the repository's
  configured default notes reference, and the notes reference may not exist, which the
  library reports as not found.
\<close>

definition git_note_default_ref :: "git_repository \<Rightarrow> int \<times> string option" where
  "git_note_default_ref r = (case repo_notes_ref r of
      None \<Rightarrow> (GIT_ERROR, None)
    | Some notes_ref \<Rightarrow> (GIT_OK, Some notes_ref))"

definition git_note_read :: "git_repository \<Rightarrow> string \<Rightarrow> oid \<Rightarrow> int \<times> string option" where
  "git_note_read r notes_ref annotated = (case map_of (repo_notes r) notes_ref of
      None \<Rightarrow> (GIT_ENOTFOUND, None)
    | Some ns \<Rightarrow> (case map_of ns annotated of
        None \<Rightarrow> (GIT_ENOTFOUND, None)
      | Some message \<Rightarrow> (GIT_OK, Some message)))"

definition git_note_create ::
  "external_functions \<Rightarrow> git_repository \<Rightarrow> string \<Rightarrow> oid \<Rightarrow> string \<Rightarrow> int
   \<Rightarrow> int \<times> oid \<times> git_repository" where
  "git_note_create ext r notes_ref annotated message overwrite =
     (let ns = (case map_of (repo_notes r) notes_ref of None \<Rightarrow> [] | Some ns \<Rightarrow> ns) in
      if map_of ns annotated \<noteq> None \<and> overwrite = 0 then (GIT_EEXISTS, odb_hash ext message, r)
      else (GIT_OK, odb_hash ext message,
            r\<lparr>repo_notes :=
                (notes_ref, (annotated, message) # filter (\<lambda>n. fst n \<noteq> annotated) ns)
                # repo_notes r\<rparr>))"

text \<open>
  Modelled from the spec: the iteration of \<open>git_note_foreach\<close> over the notes of a
  notes reference. The callback is given the blob and the
  annotated object of each note and the payload; a callback that does not return 0 ends
  the iteration with its code, and one that leaves through R's \<open>error\<close> ends it too.
\<close>

fun note_foreach_entries ::
  "(oid \<Rightarrow> oid \<Rightarrow> 'p \<Rightarrow> r_error + (int \<times> 'p)) \<Rightarrow> (oid \<times> oid) list \<Rightarrow> 'p
   \<Rightarrow> r_error + (int \<times> 'p)" where
  "note_foreach_entries note_cb [] payload = Inr (GIT_OK, payload)"
| "note_foreach_entries note_cb ((blob_id, annotated_id) # es) payload =
     (case note_cb blob_id annotated_id payload of
        Inl e \<Rightarrow> Inl e
      | Inr (err, payload') \<Rightarrow>
          if err \<noteq> 0 then Inr (err, payload')
          else note_foreach_entries note_cb es payload')"

definition git_note_foreach ::
  "external_functions \<Rightarrow> git_repository \<Rightarrow> string
   \<Rightarrow> (oid \<Rightarrow> oid \<Rightarrow> 'p \<Rightarrow> r_error + (int \<times> 'p)) \<Rightarrow> 'p \<Rightarrow> r_error + (int \<times> 'p)" where
  "git_note_foreach ext r notes_ref note_cb payload = (case map_of (repo_notes r) notes_ref of
      None \<Rightarrow> Inr (GIT_ENOTFOUND, payload)
    | Some ns \<Rightarrow>
        note_foreach_entries note_cb (map (\<lambda>n. (odb_hash ext (snd n), fst n)) ns) payload)"

text \<open>\<open>SET_SLOT\<close> on an S4 object; \<open>NEW_OBJECT\<close> makes an object with no slot set.\<close>

definition SET_SLOT :: "sexp \<Rightarrow> string \<Rightarrow> sexp \<Rightarrow> sexp" where
  "SET_SLOT x name v = (case x of
      S4SXP c slots \<Rightarrow> S4SXP c ((name, v) # filter (\<lambda>s. fst s \<noteq> name) slots)
    | _ \<Rightarrow> x)"

definition NEW_OBJECT :: "string \<Rightarrow> sexp" where
  "NEW_OBJECT class_name = S4SXP class_name []"

text \<open>
  \<open>git2r_note_init\<close>: the error code and the initialised \<open>dest\<close>. The message is
  read through the note pointer before the pointer is tested.
\<close>

definition git2r_note_init ::
  "oid \<Rightarrow> oid \<Rightarrow> git_repository \<Rightarrow> string \<Rightarrow> sexp \<Rightarrow> sexp \<Rightarrow> r_error + (int \<times> sexp)" where
  "git2r_note_init blob_id annotated_object_id repository notes_ref repo dest =
     (let (err, note) = git_note_read repository notes_ref annotated_object_id in
      if err < 0 then Inr (err, dest)
      else case note of
          None \<Rightarrow> Inl Null_dereference
        | Some message \<Rightarrow>
            Inr (0,
              SET_SLOT (SET_SLOT (SET_SLOT (SET_SLOT (SET_SLOT dest
                ''hex'' (STRSXP [blob_id]))
                ''annotated'' (STRSXP [annotated_object_id]))
                ''message'' (STRSXP [message]))
                ''refname'' (STRSXP [notes_ref]))
                ''repo'' repo))"

text \<open>\<open>LOGICAL(x)[0]\<close> of a logical vector.\<close>

definition LOGICAL_0 :: "sexp \<Rightarrow> r_error + bool" where
  "LOGICAL_0 x = (case x of
      LGLSXP (b # _) \<Rightarrow> Inr b
    | _ \<Rightarrow> Inl R_access_error)"

text \<open>
  \<open>git2r_note_create\<close>, paired with the repositories on disk after the call: the
  repository as \<open>git_note_create\<close> left it is the one that opens at the path from
  then on.
\<close>

definition git2r_note_create ::
  "external_functions \<Rightarrow> world \<Rightarrow> sexp \<Rightarrow> sexp \<Rightarrow> sexp \<Rightarrow> sexp \<Rightarrow> sexp \<Rightarrow> sexp \<Rightarrow> sexp
   \<Rightarrow> (r_error + sexp) \<times> world" where
  "git2r_note_create ext w repo hex message ref author committer force =
     (if git2r_arg_check_hex ext hex \<noteq> 0
         \<or> git2r_error_check_string_arg ext message \<noteq> 0
         \<or> git2r_error_check_string_arg ext ref \<noteq> 0
         \<or> git2r_error_check_signature_arg ext author \<noteq> 0
         \<or> git2r_error_check_signature_arg ext committer \<noteq> 0
         \<or> git2r_error_check_logical_arg ext force \<noteq> 0
      then (Inl (Invalid_arguments ''git2r_note_create''), w)
      else case git2r_repository_open ext w repo of Inl e \<Rightarrow> (Inl e, w)
        | Inr None \<Rightarrow> (Inl Invalid_repository, w)
        | Inr (Some (path, repository)) \<Rightarrow>
            let err = git2r_signature_from_arg ext author in
            if err < 0 then (Inl (Libgit2_error err), w)
            else let err = git2r_signature_from_arg ext committer in
            if err < 0 then (Inl (Libgit2_error err), w)
            else case CHAR_STRING_ELT hex 0 of Inl e \<Rightarrow> (Inl e, w) | Inr hex0 \<Rightarrow>
              let (err, object_oid) = git_oid_fromstr ext hex0 in
              if err < 0 then (Inl (Libgit2_error err), w)
              else case LOGICAL_0 force of Inl e \<Rightarrow> (Inl e, w) | Inr f \<Rightarrow>
                let overwrite = (if f then 1 else 0) in
                case CHAR_STRING_ELT ref 0 of Inl e \<Rightarrow> (Inl e, w) | Inr ref0 \<Rightarrow>
                case CHAR_STRING_ELT message 0 of Inl e \<Rightarrow> (Inl e, w) | Inr message0 \<Rightarrow>
                  let (err, note_oid, repository') =
                        git_note_create ext repository ref0 object_oid message0 overwrite;
                      w' = (path, repository') # w in
                  if err < 0 then (Inl (Libgit2_error err), w')
                  else case git2r_note_init note_oid object_oid repository' ref0 repo
                              (NEW_OBJECT ''git_note'') of
                      Inl e \<Rightarrow> (Inl e, w')
                    | Inr (err, result) \<Rightarrow>
                        if err < 0 then (Inl (Libgit2_error err), w') else (Inr result, w'))"

record git2r_note_list_cb_data =
  cb_n :: nat
  cb_list :: sexp
  cb_repo :: sexp
  cb_repository :: "git_repository option"
  cb_notes_ref :: "string option"

text \<open>\<open>SET_VECTOR_ELT(list, i, v)\<close> on a generic list.\<close>

definition SET_VECTOR_ELT :: "sexp \<Rightarrow> nat \<Rightarrow> sexp \<Rightarrow> r_error + sexp" where
  "SET_VECTOR_ELT x i v = (case x of
      VECSXP ns vs \<Rightarrow> (if i < length vs then Inr (VECSXP ns (vs[i := v])) else Inl R_access_error)
    | _ \<Rightarrow> Inl R_access_error)"

definition git2r_note_list_cb ::
  "oid \<Rightarrow> oid \<Rightarrow> git2r_note_list_cb_data \<Rightarrow> r_error + (int \<times> git2r_note_list_cb_data)" where
  "git2r_note_list_cb blob_id annotated_object_id cb_data =
     (if cb_list cb_data \<noteq> R_NilValue then
        (case (cb_repository cb_data, cb_notes_ref cb_data) of
           (Some repository, Some notes_ref) \<Rightarrow>
             (case git2r_note_init blob_id annotated_object_id repository notes_ref
                     (cb_repo cb_data) (NEW_OBJECT ''git_note'') of
                Inl e \<Rightarrow> Inl e
              | Inr (err, note) \<Rightarrow>
                  if err < 0 then Inr (err, cb_data)
                  else case SET_VECTOR_ELT (cb_list cb_data) (cb_n cb_data) note of
                      Inl e \<Rightarrow> Inl e
                    | Inr list' \<Rightarrow>
                        Inr (0, cb_data\<lparr>cb_list := list', cb_n := cb_n cb_data + 1\<rparr>))
         | _ \<Rightarrow> Inl Null_dereference)
      else Inr (0, cb_data\<lparr>cb_n := cb_n cb_data + 1\<rparr>))"

definition git2r_note_list :: "external_functions \<Rightarrow> world \<Rightarrow> sexp \<Rightarrow> sexp \<Rightarrow> r_error + sexp" where
  "git2r_note_list ext w repo ref =
     (if ref \<noteq> R_NilValue \<and> git2r_error_check_string_arg ext ref \<noteq> 0
      then Inl (Invalid_arguments ''git2r_note_list'')
      else case (if ref \<noteq> R_NilValue then map_sum id Some (CHAR_STRING_ELT ref 0) else Inr None) of
        Inl e \<Rightarrow> Inl e
      | Inr notes_ref \<Rightarrow>
      case git2r_repository_open ext w repo of Inl e \<Rightarrow> Inl e
      | Inr None \<Rightarrow> Inl Invalid_repository
      | Inr (Some (path, repository)) \<Rightarrow>
          let (err, notes_ref) =
                (if notes_ref = None then git_note_default_ref repository else (0, notes_ref)) in
          if err < 0 then Inl (Libgit2_error err)
          else case notes_ref of None \<Rightarrow> Inl Null_dereference | Some notes_ref \<Rightarrow>
            let cb_data = \<lparr>cb_n = 0, cb_list = R_NilValue, cb_repo = R_NilValue,
                            cb_repository = None, cb_notes_ref = None\<rparr> in
            case git_note_foreach ext repository notes_ref git2r_note_list_cb cb_data of
              Inl e \<Rightarrow> Inl e
            | Inr (err, cb_data) \<Rightarrow>
                if err < 0 then
                  (if err = GIT_ENOTFOUND then Inr (VECSXP [] []) else Inl (Libgit2_error err))
                else
                  let result = VECSXP [] (replicate (cb_n cb_data) R_NilValue);
                      cb_data = cb_data\<lparr>cb_n := 0, cb_list := result, cb_repo := repo,
                                  cb_repository := Some repository,
                                  cb_notes_ref := Some notes_ref\<rparr> in
                  case git_note_foreach ext repository notes_ref git2r_note_list_cb cb_data of
                    Inl e \<Rightarrow> Inl e
                  | Inr (err, cb_data) \<Rightarrow>
                      if err < 0 then Inl (Libgit2_error err) else Inr (cb_list cb_data))"

text \<open>
  The \<open>git_note\<close> object that \<open>git2r_note_init\<close> makes of a new object when the
  note is read.
\<close>

definition note_object :: "oid \<Rightarrow> oid \<Rightarrow> string \<Rightarrow> string \<Rightarrow> sexp \<Rightarrow> sexp" where
  "note_object blob_id annotated_object_id message notes_ref repo =
     S4SXP ''git_note''
       [(''repo'', repo),
        (''refname'', STRSXP [notes_ref]),
        (''message'', STRSXP [message]),
        (''annotated'', STRSXP [annotated_object_id]),
        (''hex'', STRSXP [blob_id])]"

section \<open>Concrete inputs\<close>

text \<open>
  An instance of the parameters in which every call succeeds: the argument checks accept
  a vector of length one of the right type (an S4 object for a signature), an object id
  is the string it is written as, the configuration starts empty and the walker yields the
  commits in the order of the object store.
\<close>

definition succeeding_functions :: external_functions where
  "succeeding_functions = \<lparr>
     git_repository_config = (\<lambda>r. (0, [])),
     git_config_set_string = (\<lambda>cfg key val. (0, (key, val) # cfg)),
     git_remote_load = (\<lambda>r name. 0),
     git_remote_fetch = (\<lambda>r name. 0),
     git_revwalk_new = (\<lambda>r. 0),
     git_revwalk_push_head = (\<lambda>r. (0, map fst (repo_commits r))),
     git_commit_lookup = (\<lambda>r c. 0),
     init_commit = (\<lambda>c. S4SXP ''git_commit'' [(''hex'', STRSXP [c])]),
     git2r_arg_check_string = (\<lambda>x. if isString x \<and> length_sexp x = 1 then 0 else 1),
     git2r_arg_check_hex = (\<lambda>x. if isString x \<and> length_sexp x = 1 then 0 else 1),
     git2r_error_check_string_arg = (\<lambda>x. if isString x \<and> length_sexp x = 1 then 0 else 1),
     git2r_error_check_signature_arg = (\<lambda>x. if is_S4SXP x then 0 else 1),
     git2r_error_check_logical_arg = (\<lambda>x. case x of LGLSXP [b] \<Rightarrow> 0 | _ \<Rightarrow> 1),
     git2r_signature_from_arg = (\<lambda>x. 0),
     git2r_oid_from_hex_sexp = (\<lambda>x. case x of STRSXP (s # _) \<Rightarrow> s | _ \<Rightarrow> []),
     git_oid_fromstr = (\<lambda>s. (0, s)),
     odb_hash = (\<lambda>m. ''blob of '' @ m) \<rparr>"

text \<open>
  The same with a configuration that rejects a key with no section (no dot in it) and a
  repository that has no remote, so that loading one fails.
\<close>

definition failing_functions :: external_functions where
  "failing_functions = succeeding_functions \<lparr>
     git_config_set_string :=
       (\<lambda>cfg key val. if CHR ''.'' \<in> set key then (0, (key, val) # cfg) else (GIT_ERROR, cfg)),
     git_remote_load := (\<lambda>r name. GIT_ENOTFOUND) \<rparr>"

text \<open>
  A non-bare repository with a root commit \<open>c1\<close>, its child \<open>c2\<close> and a note on
  \<open>c1\<close>; an empty bare repository; the S4 objects naming them.
\<close>

definition example_repository :: git_repository where
  "example_repository = \<lparr>
     repo_is_bare = False,
     repo_workdir = ''/home/u/project/'',
     repo_commits = [(''c2'', [''c1'']), (''c1'', [])],
     repo_notes_ref = Some ''refs/notes/commits'',
     repo_notes = [(''refs/notes/commits'', [(''c1'', ''m1'')])] \<rparr>"

definition bare_repository :: git_repository where
  "bare_repository = \<lparr>
     repo_is_bare = True,
     repo_workdir = [],
     repo_commits = [],
     repo_notes_ref = Some ''refs/notes/commits'',
     repo_notes = [] \<rparr>"

definition example_world :: world where
  "example_world = [(''/home/u/project'', example_repository), (''/srv/bare.git'', bare_repository)]"

definition example_repo :: sexp where
  "example_repo = S4SXP ''git_repository'' [(''path'', STRSXP [''/home/u/project''])]"

definition bare_repo :: sexp where
  "bare_repo = S4SXP ''git_repository'' [(''path'', STRSXP [''/srv/bare.git''])]"

definition example_commit :: "oid \<Rightarrow> sexp" where
  "example_commit c = S4SXP ''git_commit'' [(''hex'', STRSXP [c]), (''repo'', example_repo)]"

definition example_signature :: sexp where
  "example_signature = S4SXP ''git_signature'' [(''name'', STRSXP [''u''])]"

text \<open>
  A file system with \<open>/home\<close> on its own device and a repository marker in
  \<open>/home/u/project\<close>, and one whose only marker is in the root directory, on another
  device than \<open>/home\<close>.
\<close>

definition example_fs :: filesystem where
  "example_fs = \<lparr>
     fs_device = (\<lambda>dir. if take 1 dir = [''home''] then 2 else 1),
     fs_marker = (\<lambda>dir. if dir = [''home'', ''u'', ''project'']
                         then Some ''/home/u/project/.git/'' else None) \<rparr>"

definition root_marker_fs :: filesystem where
  "root_marker_fs = \<lparr>
     fs_device = (\<lambda>dir. if take 1 dir = [''home''] then 2 else 1),
     fs_marker = (\<lambda>dir. if dir = [] then Some ''/.git/'' else None) \<rparr>"

section \<open>Properties\<close>

subsection \<open>The concrete inputs\<close>

lemma get_repository_example:
  "get_repository example_world example_repo = Inr (Some (''/home/u/project'', example_repository))"
  by (simp add: get_repository_def example_world_def example_repo_def is_S4SXP_def class_name_of_def
      GET_SLOT_def CHAR_STRING_ELT_def git_repository_open_def GIT_OK_def)

lemma get_repository_bare:
  "get_repository example_world bare_repo = Inr (Some (''/srv/bare.git'', bare_repository))"
  by (simp add: get_repository_def example_world_def bare_repo_def is_S4SXP_def class_name_of_def
      GET_SLOT_def CHAR_STRING_ELT_def git_repository_open_def GIT_OK_def)

lemma checkout_action_of_HEAD: "checkout_action_of (STRSXP [''HEAD'']) = Inr CHECKOUT_HEAD"
  by (simp add: checkout_action_of_def is_S4SXP_def isString_def length_sexp_def CHAR_STRING_ELT_def)

lemma example_repo_not_nil: "example_repo \<noteq> R_NilValue"
  by (simp add: example_repo_def)

lemma bare_repository_commits: "repo_commits bare_repository = []"
  by (simp add: bare_repository_def)

lemma git2r_repository_open_bare:
  "git2r_repository_open succeeding_functions example_world bare_repo
   = Inr (Some (''/srv/bare.git'', bare_repository))"
  by (simp add: git2r_repository_open_def example_world_def bare_repo_def is_S4SXP_def class_name_of_def
      GET_SLOT_def CHAR_STRING_ELT_def git_repository_open_def GIT_OK_def succeeding_functions_def
      isString_def length_sexp_def)

lemma git2r_repository_open_example:
  "git2r_repository_open succeeding_functions example_world example_repo
   = Inr (Some (''/home/u/project'', example_repository))"
  by (simp add: git2r_repository_open_def example_world_def example_repo_def is_S4SXP_def class_name_of_def
      GET_SLOT_def CHAR_STRING_ELT_def git_repository_open_def GIT_OK_def succeeding_functions_def
      isString_def length_sexp_def)

subsection \<open>checkout\<close>

lemma checkout_switch_id: "checkout_switch a r w = w"
  by (cases a) simp_all

text \<open>
  C9. \<open>checkout\<close> is a stub: with a repository that opens and a treeish that selects
  an action (a \<open>git_commit\<close>, \<open>git_tag\<close> or \<open>git_tree\<close> object, or the string
  \<open>HEAD\<close>), the selected branch of the switch does nothing, and the repositories on
  disk after the call are the ones before it.
\<close>

theorem checkout_is_stub:
  assumes "get_repository w repo = Inr (Some r)"
    and "checkout_action_of treeish = Inr a"
  shows "checkout_switch a r w = w \<and> snd (checkout err giterr_last w repo treeish) = w"
  using assms
  by (auto simp: checkout_def checkout_switch_id Let_def split: option.splits prod.splits)

theorem checkout_is_stub_witness:
  "get_repository example_world example_repo = Inr (Some (''/home/u/project'', example_repository))
   \<and> checkout_action_of (STRSXP [''HEAD'']) = Inr CHECKOUT_HEAD
   \<and> checkout_switch CHECKOUT_HEAD (''/home/u/project'', example_repository) example_world = example_world
   \<and> snd (checkout (- 1) None example_world example_repo (STRSXP [''HEAD''])) = example_world"
  using checkout_is_stub [OF get_repository_example checkout_action_of_HEAD, of "- 1" None]
    get_repository_example checkout_action_of_HEAD
  by simp

text \<open>
  C10. With a repository that opens and a treeish that selects an action, so that no
  argument error fires, \<open>checkout\<close> leaves through its error branch exactly when the
  value found in the unassigned variable \<open>err\<close> is negative: the same arguments give
  an error for one such value and \<open>R_NilValue\<close> for another, and no call of the library
  has failed.
\<close>

theorem checkout_reads_unassigned_err:
  assumes "repo \<noteq> R_NilValue" and "treeish \<noteq> R_NilValue"
    and "checkout_action_of treeish = Inr a"
    and "get_repository w repo = Inr (Some r)"
  shows "(\<exists>e. fst (checkout err giterr_last w repo treeish) = Inl e) \<longleftrightarrow> err < 0"
  using assms
  by (auto simp: checkout_def Let_def split: option.splits prod.splits)

theorem checkout_reads_unassigned_err_witness:
  "example_repo \<noteq> R_NilValue \<and> STRSXP [''HEAD''] \<noteq> R_NilValue
   \<and> checkout_action_of (STRSXP [''HEAD'']) = Inr CHECKOUT_HEAD
   \<and> get_repository example_world example_repo = Inr (Some (''/home/u/project'', example_repository))
   \<and> (\<exists>e. fst (checkout (- 1) None example_world example_repo (STRSXP [''HEAD''])) = Inl e)
   \<and> \<not> (\<exists>e. fst (checkout 0 None example_world example_repo (STRSXP [''HEAD''])) = Inl e)"
  using checkout_reads_unassigned_err [OF example_repo_not_nil _ checkout_action_of_HEAD get_repository_example, of "- 1" None]
    checkout_reads_unassigned_err [OF example_repo_not_nil _ checkout_action_of_HEAD get_repository_example, of 0 None]
    example_repo_not_nil checkout_action_of_HEAD get_repository_example
  by simp

subsection \<open>revisions\<close>

text \<open>
  C8. For an empty repository (one with no commits), \<open>revisions\<close> returns the empty
  list and raises no error, whatever the walker of the library would do.
\<close>

theorem revisions_of_empty_repository:
  assumes "get_repository w repo = Inr (Some (path, r))" and "repo_commits r = []"
  shows "revisions ext w repo = Inr (VECSXP [] [])"
  using assms by (simp add: revisions_def git_repository_is_empty_def)

theorem revisions_of_empty_repository_witness:
  "get_repository example_world bare_repo = Inr (Some (''/srv/bare.git'', bare_repository))
   \<and> repo_commits bare_repository = []
   \<and> revisions succeeding_functions example_world bare_repo = Inr (VECSXP [] [])"
  using revisions_of_empty_repository [OF get_repository_bare bare_repository_commits, of succeeding_functions]
    get_repository_bare bare_repository_commits
  by simp

subsection \<open>config and fetch\<close>

text \<open>
  Neither \<open>config\<close> nor \<open>fetch\<close> ever raises an error of the library: after the
  label \<open>cleanup\<close> they return \<open>R_NilValue\<close> without reading \<open>err\<close>.
\<close>

lemma config_loop_no_library_error:
  "config_loop ext names variables is err cfg \<noteq> Inl (Libgit2_error e)"
  apply (induction "is" arbitrary: err cfg)
   apply simp
  apply (auto simp: CHAR_STRING_ELT_def VECTOR_ELT_def split: sum.splits prod.splits sexp.splits if_splits)
  done

lemma get_repository_no_library_error:
  "get_repository w repo \<noteq> Inl (Libgit2_error e)"
  by (auto simp: get_repository_def class_name_of_def GET_SLOT_def CHAR_STRING_ELT_def
      split: sum.splits sexp.splits option.splits if_splits)

lemma config_never_reports:
  "fst (config ext w repo variables) \<noteq> Inl (Libgit2_error e)"
  using config_loop_no_library_error get_repository_no_library_error
  by (auto simp: config_def Let_def split: sum.splits option.splits prod.splits if_splits)

lemma fetch_never_reports:
  "fst (fetch ext w repo name) \<noteq> Inl (Libgit2_error e)"
  using get_repository_no_library_error
  by (auto simp: fetch_def Let_def CHAR_STRING_ELT_def split: sum.splits option.splits prod.splits if_splits sexp.splits)

text \<open>
  C4. An operation must report a failure of the library to its caller. \<open>config\<close> with
  a key the configuration rejects, and \<open>fetch\<close> of a remote that cannot be loaded,
  both end with a negative \<open>err\<close> and return \<open>R_NilValue\<close> as on success.
\<close>

theorem config_and_fetch_swallow_errors:
  "config failing_functions example_world example_repo (VECSXP [''name''] [STRSXP [''u'']])
     = (Inr R_NilValue, Some GIT_ERROR)
   \<and> fetch failing_functions example_world example_repo (STRSXP [''origin''])
     = (Inr R_NilValue, Some GIT_ENOTFOUND)"
  by (simp add: config_def fetch_def get_repository_example failing_functions_def
      succeeding_functions_def isNewList_def isString_def length_sexp_def names_attrib_def
      CHAR_STRING_ELT_def VECTOR_ELT_def GIT_ERROR_def GIT_ENOTFOUND_def)

subsection \<open>workdir\<close>

lemma workdir_of_repository:
  assumes "get_repository w repo = Inr (Some (path, r))"
  shows "workdir w repo = (if repo_is_bare r then Inl Null_dereference else Inr (STRSXP [repo_workdir r]))"
  using assms by (simp add: workdir_def git_repository_workdir_def mkChar_def)

lemma git2r_repository_workdir_of_repository:
  assumes "git2r_repository_open ext w repo = Inr (Some (path, r))"
  shows "git2r_repository_workdir ext w repo
         = (if repo_is_bare r then Inr R_NilValue else Inr (STRSXP [repo_workdir r]))"
  using assms
  by (simp add: git2r_repository_workdir_def git_repository_workdir_def git_repository_is_bare_def mkChar_def)

text \<open>
  C7. The working directory of a bare repository is absent. For a bare repository
  \<open>git2r_repository_workdir\<close> returns \<open>R_NilValue\<close>, while \<open>workdir\<close> of git2r.c
  hands the NULL of the library to \<open>mkChar\<close>.
\<close>

theorem workdir_of_bare_repository:
  "workdir example_world bare_repo = Inl Null_dereference
   \<and> git2r_repository_workdir succeeding_functions example_world bare_repo = Inr R_NilValue"
  by (simp add: workdir_of_repository [OF get_repository_bare]
      git2r_repository_workdir_of_repository [OF git2r_repository_open_bare] bare_repository_def)

subsection \<open>can_open\<close>

lemma git_repository_open_fst:
  "fst (git_repository_open w p) = (if map_of w p = None then GIT_ENOTFOUND else GIT_OK)"
  by (simp add: git_repository_open_def split: option.splits)

text \<open>
  C5, as stated: \<open>can_open\<close> never raises an error, for any input. It does: the nil
  value and an integer vector make \<open>is_repository\<close> raise, and an argument the string
  check rejects makes \<open>git2r_repository_can_open\<close> raise.
\<close>

theorem can_open_counterexample:
  "is_repository example_world R_NilValue = Inl (Plain_error ''path equals R_NilValue'')
   \<and> is_repository example_world (INTSXP [1]) = Inl (Plain_error ''path must be a string'')
   \<and> git2r_repository_can_open succeeding_functions example_world (INTSXP [1])
       = Inl (String_arg_error ''git2r_repository_can_open'' ''path'')"
  by (simp add: is_repository_def git2r_repository_can_open_def isString_def succeeding_functions_def)

text \<open>
  C5, amended. For a character vector with a first element that the string check
  accepts, \<open>git2r_repository_can_open\<close> raises no error and returns TRUE exactly when a
  repository opens at that path, and so does \<open>is_repository\<close> for any character vector
  with a first element; an argument the string check rejects makes
  \<open>git2r_repository_can_open\<close> raise the string-argument error, and the nil value or a
  value that is not a character vector makes \<open>is_repository\<close> raise.
\<close>

theorem can_open_on_checked_argument:
  "(git2r_arg_check_string ext path = 0 \<and> CHAR_STRING_ELT path 0 = Inr p
      \<longrightarrow> git2r_repository_can_open ext w path = Inr (LGLSXP [map_of w p \<noteq> None]))
   \<and> (git2r_arg_check_string ext path \<noteq> 0
      \<longrightarrow> git2r_repository_can_open ext w path
          = Inl (String_arg_error ''git2r_repository_can_open'' ''path''))
   \<and> (CHAR_STRING_ELT path 0 = Inr p
      \<longrightarrow> is_repository w path = Inr (LGLSXP [map_of w p \<noteq> None]))
   \<and> (path = R_NilValue \<longrightarrow> is_repository w path = Inl (Plain_error ''path equals R_NilValue''))
   \<and> (path \<noteq> R_NilValue \<and> \<not> isString path
      \<longrightarrow> is_repository w path = Inl (Plain_error ''path must be a string''))"
  by (auto simp: git2r_repository_can_open_def is_repository_def git_repository_open_fst
      GIT_ENOTFOUND_def GIT_OK_def isString_def CHAR_STRING_ELT_def Let_def
      split: sexp.splits if_splits)

theorem can_open_on_checked_argument_witness:
  "git2r_arg_check_string succeeding_functions (STRSXP [''/srv/bare.git'']) = 0
   \<and> CHAR_STRING_ELT (STRSXP [''/srv/bare.git'']) 0 = Inr ''/srv/bare.git''
   \<and> git2r_repository_can_open succeeding_functions example_world (STRSXP [''/srv/bare.git''])
       = Inr (LGLSXP [True])
   \<and> is_repository example_world (STRSXP [''/srv/bare.git'']) = Inr (LGLSXP [True])
   \<and> git2r_arg_check_string succeeding_functions (INTSXP [1]) \<noteq> 0
   \<and> git2r_repository_can_open succeeding_functions example_world (INTSXP [1])
       = Inl (String_arg_error ''git2r_repository_can_open'' ''path'')"
  using can_open_on_checked_argument [of succeeding_functions "STRSXP [''/srv/bare.git'']"
          "''/srv/bare.git''" example_world]
    can_open_on_checked_argument [of succeeding_functions "INTSXP [1]" "[]" example_world]
  by (simp add: succeeding_functions_def isString_def length_sexp_def CHAR_STRING_ELT_def
      example_world_def)

subsection \<open>discover\<close>

text \<open>
  The walk from a directory finds the marker of the nearest enclosing directory
  (\<open>anc\<close>, a prefix of the directory) such that every directory from there down to the
  start is on the device \<open>dev\<close>, and finds nothing exactly when no enclosing directory
  with a marker is joined to the start by directories on that device.
\<close>

lemma discover_walk_Some:
  "discover_walk fs False dev (rev dir) = Some loc \<longleftrightarrow>
     (\<exists>anc. prefix anc dir \<and> fs_marker fs anc = Some loc
        \<and> (\<forall>mid. prefix anc mid \<and> prefix mid dir \<longrightarrow> fs_device fs mid = dev)
        \<and> (\<forall>mid. strict_prefix anc mid \<and> prefix mid dir \<longrightarrow> fs_marker fs mid = None))"
  (is "?L dir \<longleftrightarrow> (\<exists>anc. ?P dir anc)")
proof (induction dir rule: rev_induct)
  case Nil
  show ?case by (auto simp: strict_prefix_def)
next
  case (snoc x xs)
  let ?d = "xs @ [x]"
  show ?case
  proof (cases "fs_device fs ?d = dev")
    case False
    then have "discover_walk fs False dev (rev ?d) = None" by simp
    moreover have "\<not> (\<exists>anc. ?P ?d anc)"
    proof
      assume "\<exists>anc. ?P ?d anc"
      then obtain anc where "prefix anc ?d"
        and "\<forall>mid. prefix anc mid \<and> prefix mid ?d \<longrightarrow> fs_device fs mid = dev" by blast
      then have "fs_device fs ?d = dev" by blast
      with False show False by simp
    qed
    ultimately show ?thesis by simp
  next
    case dev: True
    show ?thesis
    proof (cases "fs_marker fs ?d")
      case (Some l)
      with dev have w: "discover_walk fs False dev (rev ?d) = Some l" by simp
      have eq: "\<And>mid. prefix ?d mid \<Longrightarrow> prefix mid ?d \<Longrightarrow> mid = ?d"
        by (rule prefix_order.antisym)
      have ns: "\<And>mid. strict_prefix ?d mid \<Longrightarrow> prefix mid ?d \<Longrightarrow> False"
        by (metis prefix_order.leD)
      have "?P ?d ?d \<longleftrightarrow> l = loc"
      proof
        assume "?P ?d ?d"
        then have "fs_marker fs ?d = Some loc" by blast
        with Some show "l = loc" by simp
      next
        assume "l = loc"
        with Some have m: "fs_marker fs ?d = Some loc" by simp
        have a: "\<forall>mid. prefix ?d mid \<and> prefix mid ?d \<longrightarrow> fs_device fs mid = dev"
          using eq dev by blast
        have b: "\<forall>mid. strict_prefix ?d mid \<and> prefix mid ?d \<longrightarrow> fs_marker fs mid = None"
          using ns by blast
        have c: "prefix ?d ?d" by simp
        show "?P ?d ?d" by (intro conjI) (rule c, rule m, rule a, rule b)
      qed
      moreover have "\<And>anc. ?P ?d anc \<Longrightarrow> anc = ?d"
      proof (rule ccontr)
        fix anc assume a: "?P ?d anc" and ne: "anc \<noteq> ?d"
        then have "strict_prefix anc ?d" by (simp add: strict_prefix_def)
        with a have "fs_marker fs ?d = None" by blast
        with Some show False by simp
      qed
      ultimately have iff1: "?P ?d ?d \<longleftrightarrow> l = loc"
        and uniq: "\<And>anc. ?P ?d anc \<Longrightarrow> anc = ?d" by blast+
      show ?thesis
      proof
        assume "discover_walk fs False dev (rev ?d) = Some loc"
        with w have "l = loc" by simp
        with iff1 have "?P ?d ?d" by (rule iffD2)
        then show "\<exists>anc. ?P ?d anc" by (rule exI)
      next
        assume "\<exists>anc. ?P ?d anc"
        then obtain anc where a: "?P ?d anc" by (rule exE)
        from uniq [OF a] a have "?P ?d ?d" by (simp del: prefix_snoc)
        with iff1 have "l = loc" by (rule iffD1)
        with w show "discover_walk fs False dev (rev ?d) = Some loc" by simp
      qed
    next
      case None
      with dev have w: "discover_walk fs False dev (rev ?d) = discover_walk fs False dev (rev xs)"
        by simp
      have "(\<exists>anc. ?P ?d anc) \<longleftrightarrow> (\<exists>anc. ?P xs anc)"
      proof
        assume "\<exists>anc. ?P ?d anc"
        then obtain anc where a: "?P ?d anc" by blast
        with None have "anc \<noteq> ?d" by auto
        with a have pa: "prefix anc xs" by (auto simp: prefix_snoc)
        have "?P xs anc"
          using a pa by (auto simp: prefix_snoc)
        then show "\<exists>anc. ?P xs anc" by blast
      next
        assume "\<exists>anc. ?P xs anc"
        then obtain anc where a: "?P xs anc" by blast
        have "?P ?d anc"
          using a None dev by (auto simp: prefix_snoc)
        then show "\<exists>anc. ?P ?d anc" by blast
      qed
      with w snoc show ?thesis by simp
    qed
  qed
qed

lemma discover_walk_None:
  "discover_walk fs False dev (rev dir) = None \<longleftrightarrow>
     \<not> (\<exists>anc. prefix anc dir \<and> fs_marker fs anc \<noteq> None
        \<and> (\<forall>mid. prefix anc mid \<and> prefix mid dir \<longrightarrow> fs_device fs mid = dev))"
  (is "?L dir \<longleftrightarrow> \<not> (\<exists>anc. ?P dir anc)")
proof (induction dir rule: rev_induct)
  case Nil
  show ?case by auto
next
  case (snoc x xs)
  let ?d = "xs @ [x]"
  show ?case
  proof (cases "fs_device fs ?d = dev")
    case False
    then have "discover_walk fs False dev (rev ?d) = None" by simp
    moreover have "\<not> (\<exists>anc. ?P ?d anc)"
    proof
      assume "\<exists>anc. ?P ?d anc"
      then obtain anc where "prefix anc ?d"
        and "\<forall>mid. prefix anc mid \<and> prefix mid ?d \<longrightarrow> fs_device fs mid = dev" by blast
      then have "fs_device fs ?d = dev" by blast
      with False show False by simp
    qed
    ultimately show ?thesis by simp
  next
    case dev: True
    show ?thesis
    proof (cases "fs_marker fs ?d")
      case (Some l)
      with dev have w: "discover_walk fs False dev (rev ?d) = Some l" by simp
      have eq: "\<And>mid. prefix ?d mid \<Longrightarrow> prefix mid ?d \<Longrightarrow> mid = ?d"
        by (rule prefix_order.antisym)
      have a: "\<forall>mid. prefix ?d mid \<and> prefix mid ?d \<longrightarrow> fs_device fs mid = dev"
        using eq dev by blast
      have c: "prefix ?d ?d" by simp
      have m: "fs_marker fs ?d \<noteq> None" using Some by simp
      have "?P ?d ?d" by (intro conjI) (rule c, rule m, rule a)
      then have "\<exists>anc. ?P ?d anc" by (rule exI)
      with w show ?thesis by (simp del: prefix_snoc)
    next
      case None
      with dev have w: "discover_walk fs False dev (rev ?d) = discover_walk fs False dev (rev xs)"
        by simp
      have "(\<exists>anc. ?P ?d anc) \<longleftrightarrow> (\<exists>anc. ?P xs anc)"
      proof
        assume "\<exists>anc. ?P ?d anc"
        then obtain anc where a: "?P ?d anc" by blast
        with None have "anc \<noteq> ?d" by auto
        with a have pa: "prefix anc xs" by (auto simp: prefix_snoc)
        have "?P xs anc"
          using a pa by (auto simp: prefix_snoc)
        then show "\<exists>anc. ?P xs anc" by blast
      next
        assume "\<exists>anc. ?P xs anc"
        then obtain anc where a: "?P xs anc" by blast
        have "?P ?d anc"
          using a None dev by (auto simp: prefix_snoc)
        then show "\<exists>anc. ?P ?d anc" by blast
      qed
      with w snoc show ?thesis by simp
    qed
  qed
qed

text \<open>
  C6. For a starting path that the string check accepts, \<open>discover\<close> walks the parent
  directories: it returns the location recorded by the marker of the nearest enclosing
  directory that has one, provided no directory on the way is on another device than the
  start; it returns \<open>R_NilValue\<close> exactly when there is no such directory; and it
  raises no error.
\<close>

theorem discover_finds_nearest_repository:
  assumes "git2r_arg_check_string ext path = 0"
    and "CHAR_STRING_ELT path 0 = Inr p"
    and "dir = split_path p []"
  shows "(git2r_repository_discover ext fs path = Inr (STRSXP [loc]) \<longleftrightarrow>
           (\<exists>anc. prefix anc dir \<and> fs_marker fs anc = Some loc
              \<and> (\<forall>mid. prefix anc mid \<and> prefix mid dir \<longrightarrow> fs_device fs mid = fs_device fs dir)
              \<and> (\<forall>mid. strict_prefix anc mid \<and> prefix mid dir \<longrightarrow> fs_marker fs mid = None)))
       \<and> (git2r_repository_discover ext fs path = Inr R_NilValue \<longleftrightarrow>
           \<not> (\<exists>anc. prefix anc dir \<and> fs_marker fs anc \<noteq> None
              \<and> (\<forall>mid. prefix anc mid \<and> prefix mid dir \<longrightarrow> fs_device fs mid = fs_device fs dir)))
       \<and> (\<forall>e. git2r_repository_discover ext fs path \<noteq> Inl e)"
proof (cases "discover_walk fs False (fs_device fs dir) (rev dir)")
  case None
  then have r: "git2r_repository_discover ext fs path = Inr R_NilValue"
    using assms
    by (simp add: git2r_repository_discover_def git_repository_discover_def GIT_OK_def
        GIT_ENOTFOUND_def)
  have n: "\<not> (\<exists>anc. prefix anc dir \<and> fs_marker fs anc \<noteq> None
              \<and> (\<forall>mid. prefix anc mid \<and> prefix mid dir \<longrightarrow> fs_device fs mid = fs_device fs dir))"
    using iffD1 [OF discover_walk_None None] .
  have "\<not> (\<exists>anc. prefix anc dir \<and> fs_marker fs anc = Some loc
              \<and> (\<forall>mid. prefix anc mid \<and> prefix mid dir \<longrightarrow> fs_device fs mid = fs_device fs dir)
              \<and> (\<forall>mid. strict_prefix anc mid \<and> prefix mid dir \<longrightarrow> fs_marker fs mid = None))"
    using None discover_walk_Some [of fs "fs_device fs dir" dir loc] by simp
  with r n show ?thesis by simp
next
  case (Some l)
  then have r: "git2r_repository_discover ext fs path = Inr (STRSXP [l])"
    using assms
    by (simp add: git2r_repository_discover_def git_repository_discover_def GIT_OK_def
        GIT_ENOTFOUND_def mkChar_def)
  have n: "\<exists>anc. prefix anc dir \<and> fs_marker fs anc \<noteq> None
              \<and> (\<forall>mid. prefix anc mid \<and> prefix mid dir \<longrightarrow> fs_device fs mid = fs_device fs dir)"
  proof (rule ccontr)
    assume "\<not> (\<exists>anc. prefix anc dir \<and> fs_marker fs anc \<noteq> None
              \<and> (\<forall>mid. prefix anc mid \<and> prefix mid dir \<longrightarrow> fs_device fs mid = fs_device fs dir))"
    then have "discover_walk fs False (fs_device fs dir) (rev dir) = None"
      by (rule iffD2 [OF discover_walk_None])
    with Some show False by simp
  qed
  have "l = loc \<longleftrightarrow> (\<exists>anc. prefix anc dir \<and> fs_marker fs anc = Some loc
              \<and> (\<forall>mid. prefix anc mid \<and> prefix mid dir \<longrightarrow> fs_device fs mid = fs_device fs dir)
              \<and> (\<forall>mid. strict_prefix anc mid \<and> prefix mid dir \<longrightarrow> fs_marker fs mid = None))"
    using Some discover_walk_Some [of fs "fs_device fs dir" dir loc] by simp
  with r n show ?thesis by simp
qed

lemma discover_example:
  "git2r_repository_discover succeeding_functions example_fs (STRSXP [''/home/u/project/src/lib''])
   = Inr (STRSXP [''/home/u/project/.git/''])"
  by (simp add: git2r_repository_discover_def git_repository_discover_def succeeding_functions_def
      example_fs_def isString_def length_sexp_def CHAR_STRING_ELT_def GIT_OK_def mkChar_def)

lemma discover_unrelated:
  "git2r_repository_discover succeeding_functions example_fs (STRSXP [''/tmp/x''])
   = Inr R_NilValue"
  by (simp add: git2r_repository_discover_def git_repository_discover_def succeeding_functions_def
      example_fs_def isString_def length_sexp_def CHAR_STRING_ELT_def GIT_OK_def GIT_ENOTFOUND_def)

lemma discover_device_boundary:
  "git2r_repository_discover succeeding_functions root_marker_fs (STRSXP [''/home/u''])
   = Inr R_NilValue"
  by (simp add: git2r_repository_discover_def git_repository_discover_def succeeding_functions_def
      root_marker_fs_def isString_def length_sexp_def CHAR_STRING_ELT_def GIT_OK_def GIT_ENOTFOUND_def)

lemma check_string_example:
  "git2r_arg_check_string succeeding_functions (STRSXP [s]) = 0"
  by (simp add: succeeding_functions_def isString_def length_sexp_def)

lemma CHAR_STRING_ELT_first: "CHAR_STRING_ELT (STRSXP [s]) 0 = Inr s"
  by (simp add: CHAR_STRING_ELT_def)

lemma split_path_example:
  "[''home'', ''u'', ''project'', ''src'', ''lib''] = split_path ''/home/u/project/src/lib'' []"
  by simp

lemma split_path_home_u: "[''home'', ''u''] = split_path ''/home/u'' []"
  by simp

theorem discover_finds_nearest_repository_witness:
  "git2r_arg_check_string succeeding_functions (STRSXP [''/home/u/project/src/lib'']) = 0
   \<and> CHAR_STRING_ELT (STRSXP [''/home/u/project/src/lib'']) 0 = Inr ''/home/u/project/src/lib''
   \<and> git2r_repository_discover succeeding_functions example_fs
        (STRSXP [''/home/u/project/src/lib'']) = Inr (STRSXP [''/home/u/project/.git/''])
   \<and> (\<exists>anc. prefix anc [''home'', ''u'', ''project'', ''src'', ''lib'']
        \<and> fs_marker example_fs anc = Some ''/home/u/project/.git/'')
   \<and> git2r_repository_discover succeeding_functions root_marker_fs (STRSXP [''/home/u''])
        = Inr R_NilValue
   \<and> \<not> (\<exists>anc. prefix anc [''home'', ''u''] \<and> fs_marker root_marker_fs anc \<noteq> None
        \<and> (\<forall>mid. prefix anc mid \<and> prefix mid [''home'', ''u'']
              \<longrightarrow> fs_device root_marker_fs mid = fs_device root_marker_fs [''home'', ''u'']))"
proof -
  note t1 = discover_finds_nearest_repository [OF check_string_example CHAR_STRING_ELT_first
      split_path_example, of example_fs "''/home/u/project/.git/''"]
  note t2 = discover_finds_nearest_repository [OF check_string_example CHAR_STRING_ELT_first
      split_path_home_u, of root_marker_fs "[]"]
  from t1 have "git2r_repository_discover succeeding_functions example_fs
        (STRSXP [''/home/u/project/src/lib'']) = Inr (STRSXP [''/home/u/project/.git/'']) \<longleftrightarrow>
      (\<exists>anc. prefix anc [''home'', ''u'', ''project'', ''src'', ''lib'']
        \<and> fs_marker example_fs anc = Some ''/home/u/project/.git/''
        \<and> (\<forall>mid. prefix anc mid \<and> prefix mid [''home'', ''u'', ''project'', ''src'', ''lib'']
              \<longrightarrow> fs_device example_fs mid
                  = fs_device example_fs [''home'', ''u'', ''project'', ''src'', ''lib''])
        \<and> (\<forall>mid. strict_prefix anc mid \<and> prefix mid [''home'', ''u'', ''project'', ''src'', ''lib'']
              \<longrightarrow> fs_marker example_fs mid = None))"
    by (rule conjunct1)
  from this discover_example
  have "\<exists>anc. prefix anc [''home'', ''u'', ''project'', ''src'', ''lib'']
        \<and> fs_marker example_fs anc = Some ''/home/u/project/.git/''
        \<and> (\<forall>mid. prefix anc mid \<and> prefix mid [''home'', ''u'', ''project'', ''src'', ''lib'']
              \<longrightarrow> fs_device example_fs mid
                  = fs_device example_fs [''home'', ''u'', ''project'', ''src'', ''lib''])
        \<and> (\<forall>mid. strict_prefix anc mid \<and> prefix mid [''home'', ''u'', ''project'', ''src'', ''lib'']
              \<longrightarrow> fs_marker example_fs mid = None)"
    by (rule iffD1)
  then obtain anc where "prefix anc [''home'', ''u'', ''project'', ''src'', ''lib'']"
    and "fs_marker example_fs anc = Some ''/home/u/project/.git/''"
    by (elim exE conjE)
  then have e1: "\<exists>anc. prefix anc [''home'', ''u'', ''project'', ''src'', ''lib'']
        \<and> fs_marker example_fs anc = Some ''/home/u/project/.git/''"
    by (intro exI conjI)
  from t2 have "git2r_repository_discover succeeding_functions root_marker_fs (STRSXP [''/home/u''])
        = Inr R_NilValue \<longleftrightarrow>
      \<not> (\<exists>anc. prefix anc [''home'', ''u''] \<and> fs_marker root_marker_fs anc \<noteq> None
        \<and> (\<forall>mid. prefix anc mid \<and> prefix mid [''home'', ''u'']
              \<longrightarrow> fs_device root_marker_fs mid = fs_device root_marker_fs [''home'', ''u'']))"
    by (elim conjE)
  from this discover_device_boundary
  have e2: "\<not> (\<exists>anc. prefix anc [''home'', ''u''] \<and> fs_marker root_marker_fs anc \<noteq> None
        \<and> (\<forall>mid. prefix anc mid \<and> prefix mid [''home'', ''u'']
              \<longrightarrow> fs_device root_marker_fs mid = fs_device root_marker_fs [''home'', ''u'']))"
    by (rule iffD1)
  from check_string_example CHAR_STRING_ELT_first discover_example e1 discover_device_boundary e2
  show ?thesis by (intro conjI)
qed

subsection \<open>descendant_of\<close>

text \<open>
  The search answers true exactly when the ancestor is reached from one of the commits
  it starts with by following parent links, zero or more times.
\<close>

lemma search_sound:
  "descendant_search g todo visited a \<Longrightarrow> \<exists>x \<in> set todo. (x, a) \<in> (parent_rel g)\<^sup>*"
proof (induction g todo visited a rule: descendant_search.induct)
  case (1 g visited ancestor)
  then show ?case by simp
next
  case (2 g x todo visited ancestor)
  show ?case
  proof (cases "x = ancestor")
    case True
    then show ?thesis by auto
  next
    case ne: False
    show ?thesis
    proof (cases "x \<in> set visited")
      case True
      with ne 2 show ?thesis by auto
    next
      case nv: False
      show ?thesis
      proof (cases "map_of g x")
        case None
        with ne nv 2 show ?thesis by auto
      next
        case (Some ps)
        with ne nv 2 have "\<exists>y \<in> set (ps @ todo). (y, ancestor) \<in> (parent_rel g)\<^sup>*" by auto
        then obtain y where y: "y \<in> set ps \<union> set todo" "(y, ancestor) \<in> (parent_rel g)\<^sup>*" by auto
        show ?thesis
        proof (cases "y \<in> set ps")
          case True
          with Some have "(x, y) \<in> parent_rel g" by (auto simp: parent_rel_def)
          then have "(x, ancestor) \<in> (parent_rel g)\<^sup>*"
            using y(2) by (rule converse_rtrancl_into_rtrancl)
          then show ?thesis by auto
        next
          case False
          with y show ?thesis by auto
        qed
      qed
    qed
  qed
qed

lemma closed_no_path:
  assumes cl: "parent_rel g `` S \<subseteq> S" and x: "x \<in> S" and a: "a \<notin> S"
  shows "(x, a) \<notin> (parent_rel g)\<^sup>*"
proof
  assume "(x, a) \<in> (parent_rel g)\<^sup>*"
  then have "a \<in> S" using x
  proof (induction rule: rtrancl_induct)
    case base then show ?case by simp
  next
    case (step y z) with cl show ?case by auto
  qed
  with a show False by simp
qed

lemma dead_ends_no_succ: "parent_rel g `` dead_ends g a = {}"
  by (auto simp: parent_rel_def dead_ends_def)

lemma search_complete:
  assumes "\<not> descendant_search g todo visited a"
    and "a \<notin> set visited"
    and "parent_rel g `` set visited \<subseteq> set visited \<union> set todo \<union> dead_ends g a"
  shows "\<forall>x \<in> set todo \<union> set visited. (x, a) \<notin> (parent_rel g)\<^sup>*"
  using assms
proof (induction g todo visited a rule: descendant_search.induct)
  case (1 g visited ancestor)
  let ?S = "set visited \<union> dead_ends g ancestor"
  have "parent_rel g `` ?S \<subseteq> ?S" using 1(3) dead_ends_no_succ[of g ancestor] by auto
  moreover have "ancestor \<notin> ?S" using 1(2) by (simp add: dead_ends_def)
  ultimately show ?case using closed_no_path[of g ?S] by auto
next
  case (2 g x todo visited ancestor)
  from 2(4) have ne: "x \<noteq> ancestor" by auto
  show ?case
  proof (cases "x \<in> set visited")
    case True
    with ne 2(4) have "\<not> descendant_search g todo visited ancestor" by simp
    moreover have "parent_rel g `` set visited \<subseteq> set visited \<union> set todo \<union> dead_ends g ancestor"
      using 2(6) True by auto
    ultimately have "\<forall>y \<in> set todo \<union> set visited. (y, ancestor) \<notin> (parent_rel g)\<^sup>*"
      using 2(1)[OF ne True] 2(5) by blast
    with True show ?thesis by auto
  next
    case nv: False
    show ?thesis
    proof (cases "map_of g x")
      case None
      with ne nv 2(4) have "\<not> descendant_search g todo visited ancestor" by simp
      moreover have xd: "x \<in> dead_ends g ancestor" using None ne by (simp add: dead_ends_def)
      then have "parent_rel g `` set visited \<subseteq> set visited \<union> set todo \<union> dead_ends g ancestor"
        using 2(6) by auto
      ultimately have ih: "\<forall>y \<in> set todo \<union> set visited. (y, ancestor) \<notin> (parent_rel g)\<^sup>*"
        using 2(2)[OF ne nv None] 2(5) by blast
      have "(x, ancestor) \<notin> (parent_rel g)\<^sup>*"
      proof
        assume "(x, ancestor) \<in> (parent_rel g)\<^sup>*"
        then show False using ne None
          by (cases rule: converse_rtranclE) (auto simp: parent_rel_def)
      qed
      with ih show ?thesis by auto
    next
      case (Some ps)
      with ne nv 2(4) have "\<not> descendant_search g (ps @ todo) (x # visited) ancestor" by simp
      moreover have "ancestor \<notin> set (x # visited)" using ne 2(5) by auto
      moreover have "parent_rel g `` set (x # visited)
          \<subseteq> set (x # visited) \<union> set (ps @ todo) \<union> dead_ends g ancestor"
        using 2(6) Some by (auto simp: parent_rel_def)
      ultimately have "\<forall>y \<in> set (ps @ todo) \<union> set (x # visited). (y, ancestor) \<notin> (parent_rel g)\<^sup>*"
        using 2(3)[OF ne nv Some] by blast
      then show ?thesis by auto
    qed
  qed
qed

lemma search_iff:
  "descendant_search g ps [] a \<longleftrightarrow> (\<exists>p \<in> set ps. (p, a) \<in> (parent_rel g)\<^sup>*)"
proof
  assume "descendant_search g ps [] a"
  then show "\<exists>p \<in> set ps. (p, a) \<in> (parent_rel g)\<^sup>*" by (rule search_sound)
next
  assume r: "\<exists>p \<in> set ps. (p, a) \<in> (parent_rel g)\<^sup>*"
  show "descendant_search g ps [] a"
  proof (rule ccontr)
    assume "\<not> descendant_search g ps [] a"
    then have "\<forall>x \<in> set ps \<union> set []. (x, a) \<notin> (parent_rel g)\<^sup>*"
      by (rule search_complete) simp_all
    with r show False by auto
  qed
qed

lemma trancl_parents:
  "map_of g c = Some ps \<Longrightarrow> (c, a) \<in> (parent_rel g)\<^sup>+ \<longleftrightarrow> (\<exists>p \<in> set ps. (p, a) \<in> (parent_rel g)\<^sup>*)"
  by (auto simp: parent_rel_def trancl_unfold_left relcomp_unfold)


lemma git_graph_descendant_of_correct:
  assumes "map_of (repo_commits r) c \<noteq> None" and "map_of (repo_commits r) a \<noteq> None"
  shows "git_graph_descendant_of r c a
         = (if c \<noteq> a \<and> (c, a) \<in> (parent_rel (repo_commits r))\<^sup>+ then 1 else 0)"
proof -
  from assms obtain ps qs where ps: "map_of (repo_commits r) c = Some ps"
    and qs: "map_of (repo_commits r) a = Some qs" by auto
  show ?thesis
    using ps qs trancl_parents [OF ps, of a] search_iff [of "repo_commits r" ps a]
    by (simp add: git_graph_descendant_of_def)
qed

text \<open>
  C1. For two commits of the repository, \<open>descendant_of\<close> returns TRUE exactly when
  the two ids differ and the ancestor is reached from the commit by following parent
  links (any parent) one or more times. So it is FALSE for a commit and itself, and TRUE
  whenever the ancestor is on a parent chain of a different commit.
\<close>

theorem descendant_of_is_strict_reachability:
  assumes "GET_SLOT commit ''repo'' = Inr slot"
    and "git2r_repository_open ext w slot = Inr (Some (path, r))"
    and "GET_SLOT commit ''hex'' = Inr commit_hex"
    and "GET_SLOT ancestor ''hex'' = Inr ancestor_hex"
    and "git2r_oid_from_hex_sexp ext commit_hex = c"
    and "git2r_oid_from_hex_sexp ext ancestor_hex = a"
    and "map_of (repo_commits r) c \<noteq> None"
    and "map_of (repo_commits r) a \<noteq> None"
  shows "git2r_graph_descendant_of ext w commit ancestor
         = Inr (LGLSXP [c \<noteq> a \<and> (c, a) \<in> (parent_rel (repo_commits r))\<^sup>+])"
  using assms(1-6) git_graph_descendant_of_correct [OF assms(7,8)]
  by (simp add: git2r_graph_descendant_of_def Let_def)

lemma example_commit_slots:
  "GET_SLOT (example_commit c) ''repo'' = Inr example_repo"
  "GET_SLOT (example_commit c) ''hex'' = Inr (STRSXP [c])"
  by (simp_all add: example_commit_def GET_SLOT_def)

lemma oid_from_hex_example: "git2r_oid_from_hex_sexp succeeding_functions (STRSXP [c]) = c"
  by (simp add: succeeding_functions_def)

lemma example_commits:
  "map_of (repo_commits example_repository) ''c1'' \<noteq> None"
  "map_of (repo_commits example_repository) ''c2'' \<noteq> None"
  by (simp_all add: example_repository_def)

lemma descendant_of_example:
  "git2r_graph_descendant_of succeeding_functions example_world (example_commit ''c2'')
     (example_commit ''c1'') = Inr (LGLSXP [True])"
  "git2r_graph_descendant_of succeeding_functions example_world (example_commit ''c1'')
     (example_commit ''c2'') = Inr (LGLSXP [False])"
  "git2r_graph_descendant_of succeeding_functions example_world (example_commit ''c1'')
     (example_commit ''c1'') = Inr (LGLSXP [False])"
  by (simp_all add: git2r_graph_descendant_of_def example_commit_slots
      git2r_repository_open_example oid_from_hex_example git_graph_descendant_of_def
      example_repository_def)

theorem descendant_of_is_strict_reachability_witness:
  "GET_SLOT (example_commit ''c2'') ''repo'' = Inr example_repo
   \<and> git2r_repository_open succeeding_functions example_world example_repo
       = Inr (Some (''/home/u/project'', example_repository))
   \<and> map_of (repo_commits example_repository) ''c2'' \<noteq> None
   \<and> map_of (repo_commits example_repository) ''c1'' \<noteq> None
   \<and> git2r_graph_descendant_of succeeding_functions example_world (example_commit ''c2'')
       (example_commit ''c1'') = Inr (LGLSXP [True])
   \<and> (''c2'', ''c1'') \<in> (parent_rel (repo_commits example_repository))\<^sup>+
   \<and> git2r_graph_descendant_of succeeding_functions example_world (example_commit ''c1'')
       (example_commit ''c2'') = Inr (LGLSXP [False])
   \<and> (''c1'', ''c2'') \<notin> (parent_rel (repo_commits example_repository))\<^sup>+
   \<and> git2r_graph_descendant_of succeeding_functions example_world (example_commit ''c1'')
       (example_commit ''c1'') = Inr (LGLSXP [False])"
proof -
  have t21: "git2r_graph_descendant_of succeeding_functions example_world (example_commit ''c2'')
       (example_commit ''c1'')
     = Inr (LGLSXP [''c2'' \<noteq> ''c1'' \<and> (''c2'', ''c1'') \<in> (parent_rel (repo_commits example_repository))\<^sup>+])"
    by (rule descendant_of_is_strict_reachability [OF example_commit_slots(1)
          git2r_repository_open_example example_commit_slots(2) example_commit_slots(2)
          oid_from_hex_example oid_from_hex_example example_commits(2) example_commits(1)])
  have t12: "git2r_graph_descendant_of succeeding_functions example_world (example_commit ''c1'')
       (example_commit ''c2'')
     = Inr (LGLSXP [''c1'' \<noteq> ''c2'' \<and> (''c1'', ''c2'') \<in> (parent_rel (repo_commits example_repository))\<^sup>+])"
    by (rule descendant_of_is_strict_reachability [OF example_commit_slots(1)
          git2r_repository_open_example example_commit_slots(2) example_commit_slots(2)
          oid_from_hex_example oid_from_hex_example example_commits(1) example_commits(2)])
  from t21 descendant_of_example(1)
  have r21: "(''c2'', ''c1'') \<in> (parent_rel (repo_commits example_repository))\<^sup>+" by simp
  from t12 descendant_of_example(2)
  have r12: "(''c1'', ''c2'') \<notin> (parent_rel (repo_commits example_repository))\<^sup>+" by simp
  from example_commit_slots(1) git2r_repository_open_example example_commits(2) example_commits(1)
    descendant_of_example(1) r21 descendant_of_example(2) r12 descendant_of_example(3)
  show ?thesis by (intro conjI)
qed

subsection \<open>Notes\<close>

text \<open>
  The first iteration of \<open>git2r_note_list\<close> counts the notes and the second fills the
  list, so that listing a notes reference that exists gives one \<open>git_note\<close> object for
  each of its notes, in their order.
\<close>

lemma note_init_new_object:
  "git2r_note_init blob_id annotated r notes_ref repo (NEW_OBJECT ''git_note'')
   = (case git_note_read r notes_ref annotated of
        (err, note) \<Rightarrow>
          if err < 0 then Inr (err, NEW_OBJECT ''git_note'')
          else case note of
              None \<Rightarrow> Inl Null_dereference
            | Some message \<Rightarrow> Inr (0, note_object blob_id annotated message notes_ref repo))"
  by (simp add: git2r_note_init_def note_object_def SET_SLOT_def NEW_OBJECT_def
      split: prod.splits option.splits)

lemma note_foreach_count:
  assumes "cb_list d = R_NilValue"
  shows "note_foreach_entries git2r_note_list_cb es d = Inr (0, d\<lparr>cb_n := cb_n d + length es\<rparr>)"
  using assms
proof (induction es arbitrary: d)
  case Nil
  then show ?case by (simp add: GIT_OK_def)
next
  case (Cons e es)
  obtain b a where e: "e = (b, a)" by (cases e)
  have "git2r_note_list_cb b a d = Inr (0, d\<lparr>cb_n := cb_n d + 1\<rparr>)"
    using Cons.prems by (simp add: git2r_note_list_cb_def)
  moreover have "cb_list (d\<lparr>cb_n := cb_n d + 1\<rparr>) = R_NilValue" using Cons.prems by simp
  ultimately show ?case using Cons.IH [of "d\<lparr>cb_n := cb_n d + 1\<rparr>"] e by simp
qed

lemma note_foreach_fill:
  assumes "list_all (\<lambda>e. \<exists>m. git_note_read r nref (snd e) = (0, Some m)) es"
    and "k + length es \<le> length vs"
  shows "note_foreach_entries git2r_note_list_cb es
           \<lparr>cb_n = k, cb_list = VECSXP ns vs, cb_repo = repo,
            cb_repository = Some r, cb_notes_ref = Some nref\<rparr>
         = Inr (0, \<lparr>cb_n = k + length es,
                   cb_list = VECSXP ns (take k vs
                     @ map (\<lambda>e. note_object (fst e) (snd e)
                                  (the (snd (git_note_read r nref (snd e)))) nref repo) es
                     @ drop (k + length es) vs),
                   cb_repo = repo, cb_repository = Some r, cb_notes_ref = Some nref\<rparr>)"
  using assms
proof (induction es arbitrary: k vs)
  case Nil
  then show ?case by (simp add: GIT_OK_def)
next
  case (Cons e es)
  obtain b a where e: "e = (b, a)" by (cases e)
  from Cons.prems(1) e obtain m where m: "git_note_read r nref a = (0, Some m)" by auto
  from Cons.prems(2) have k: "k < length vs" by simp
  let ?x = "note_object b a m nref repo"
  have cb: "git2r_note_list_cb b a
              \<lparr>cb_n = k, cb_list = VECSXP ns vs, cb_repo = repo,
               cb_repository = Some r, cb_notes_ref = Some nref\<rparr>
            = Inr (0, \<lparr>cb_n = Suc k, cb_list = VECSXP ns (vs[k := ?x]), cb_repo = repo,
                      cb_repository = Some r, cb_notes_ref = Some nref\<rparr>)"
    using m k by (simp add: git2r_note_list_cb_def note_init_new_object SET_VECTOR_ELT_def)
  have ih: "note_foreach_entries git2r_note_list_cb es
           \<lparr>cb_n = Suc k, cb_list = VECSXP ns (vs[k := ?x]), cb_repo = repo,
            cb_repository = Some r, cb_notes_ref = Some nref\<rparr>
         = Inr (0, \<lparr>cb_n = Suc k + length es,
                   cb_list = VECSXP ns (take (Suc k) (vs[k := ?x])
                     @ map (\<lambda>e. note_object (fst e) (snd e)
                                  (the (snd (git_note_read r nref (snd e)))) nref repo) es
                     @ drop (Suc k + length es) (vs[k := ?x])),
                   cb_repo = repo, cb_repository = Some r, cb_notes_ref = Some nref\<rparr>)"
    using Cons.prems by (intro Cons.IH) simp_all
  have t: "take (Suc k) (vs[k := ?x]) = take k vs @ [?x]"
    using k by (simp add: take_Suc_conv_app_nth)
  have d: "drop (Suc k + length es) (vs[k := ?x]) = drop (Suc k + length es) vs"
    by simp
  show ?case
    using cb ih m by (simp add: e t d)
qed

lemma note_foreach_passes:
  assumes "map_of (repo_notes r) nref = Some ns"
  shows "git_note_foreach ext r nref git2r_note_list_cb
           \<lparr>cb_n = 0, cb_list = R_NilValue, cb_repo = R_NilValue,
            cb_repository = None, cb_notes_ref = None\<rparr>
         = Inr (0, \<lparr>cb_n = length ns, cb_list = R_NilValue, cb_repo = R_NilValue,
                   cb_repository = None, cb_notes_ref = None\<rparr>)"
    and "git_note_foreach ext r nref git2r_note_list_cb
           \<lparr>cb_n = 0, cb_list = VECSXP [] (replicate (length ns) R_NilValue), cb_repo = repo,
            cb_repository = Some r, cb_notes_ref = Some nref\<rparr>
         = Inr (0, \<lparr>cb_n = length ns,
              cb_list = VECSXP [] (map (\<lambda>n. note_object (odb_hash ext (snd n)) (fst n)
                                  (the (map_of ns (fst n))) nref repo) ns),
              cb_repo = repo, cb_repository = Some r, cb_notes_ref = Some nref\<rparr>)"
proof -
  let ?es = "map (\<lambda>n. (odb_hash ext (snd n), fst n)) ns"
  let ?d0 = "\<lparr>cb_n = 0, cb_list = R_NilValue, cb_repo = R_NilValue,
               cb_repository = None, cb_notes_ref = None\<rparr>"
  have read: "\<And>a. git_note_read r nref a
      = (case map_of ns a of None \<Rightarrow> (GIT_ENOTFOUND, None) | Some m \<Rightarrow> (GIT_OK, Some m))"
    using assms by (simp add: git_note_read_def)
  show "git_note_foreach ext r nref git2r_note_list_cb ?d0
           = Inr (0, \<lparr>cb_n = length ns, cb_list = R_NilValue, cb_repo = R_NilValue,
                   cb_repository = None, cb_notes_ref = None\<rparr>)"
    using assms note_foreach_count [of ?d0 ?es] by (simp add: git_note_foreach_def)
  have all: "list_all (\<lambda>e. \<exists>m. git_note_read r nref (snd e) = (0, Some m)) ?es"
  proof -
    have "\<exists>m. git_note_read r nref (fst n) = (0, Some m)" if "n \<in> set ns" for n
    proof -
      from that obtain m where "map_of ns (fst n) = Some m"
        by (metis weak_map_of_SomeI prod.collapse)
      then show ?thesis by (simp add: read GIT_OK_def)
    qed
    then show ?thesis by (simp add: list_all_iff)
  qed
  have f: "git_note_foreach ext r nref git2r_note_list_cb
             \<lparr>cb_n = 0, cb_list = VECSXP [] (replicate (length ns) R_NilValue), cb_repo = repo,
              cb_repository = Some r, cb_notes_ref = Some nref\<rparr>
           = Inr (0, \<lparr>cb_n = length ns,
                cb_list = VECSXP [] (map (\<lambda>e. note_object (fst e) (snd e)
                                  (the (snd (git_note_read r nref (snd e)))) nref repo) ?es),
                cb_repo = repo, cb_repository = Some r, cb_notes_ref = Some nref\<rparr>)"
    using assms note_foreach_fill [OF all, of 0 "replicate (length ns) R_NilValue" "[]" repo]
    by (simp add: git_note_foreach_def)
  have m: "map (\<lambda>e. note_object (fst e) (snd e)
                  (the (snd (git_note_read r nref (snd e)))) nref repo) ?es
         = map (\<lambda>n. note_object (odb_hash ext (snd n)) (fst n)
                                  (the (map_of ns (fst n))) nref repo) ns"
  proof -
    have "the (snd (git_note_read r nref (fst n))) = the (map_of ns (fst n))"
      if "n \<in> set ns" for n
    proof -
      from that obtain m where "map_of ns (fst n) = Some m"
        by (metis weak_map_of_SomeI prod.collapse)
      then show ?thesis by (simp add: read)
    qed
    then show ?thesis by simp
  qed
  from f m show "git_note_foreach ext r nref git2r_note_list_cb
           \<lparr>cb_n = 0, cb_list = VECSXP [] (replicate (length ns) R_NilValue), cb_repo = repo,
            cb_repository = Some r, cb_notes_ref = Some nref\<rparr>
         = Inr (0, \<lparr>cb_n = length ns,
              cb_list = VECSXP [] (map (\<lambda>n. note_object (odb_hash ext (snd n)) (fst n)
                                  (the (map_of ns (fst n))) nref repo) ns),
              cb_repo = repo, cb_repository = Some r, cb_notes_ref = Some nref\<rparr>)"
    by simp
qed

lemma note_list_of_present_ref:
  assumes "ref \<noteq> R_NilValue"
    and "git2r_error_check_string_arg ext ref = 0"
    and "CHAR_STRING_ELT ref 0 = Inr nref"
    and "git2r_repository_open ext w repo = Inr (Some (path, r))"
    and "map_of (repo_notes r) nref = Some ns"
  shows "git2r_note_list ext w repo ref
         = Inr (VECSXP [] (map (\<lambda>n. note_object (odb_hash ext (snd n)) (fst n)
                                  (the (map_of ns (fst n))) nref repo) ns))"
  using assms(1-4) note_foreach_passes(1) [OF assms(5), of ext]
    note_foreach_passes(2) [OF assms(5), of ext repo]
  by (simp add: git2r_note_list_def)

lemma note_list_of_default_ref:
  assumes "git2r_repository_open ext w repo = Inr (Some (path, r))"
    and "repo_notes_ref r = Some nref"
    and "map_of (repo_notes r) nref = Some ns"
  shows "git2r_note_list ext w repo R_NilValue
         = Inr (VECSXP [] (map (\<lambda>n. note_object (odb_hash ext (snd n)) (fst n)
                                  (the (map_of ns (fst n))) nref repo) ns))"
  using assms(1,2) note_foreach_passes(1) [OF assms(3), of ext]
    note_foreach_passes(2) [OF assms(3), of ext repo]
  by (simp add: git2r_note_list_def git_note_default_ref_def GIT_OK_def)

lemma bare_repository_notes:
  "repo_notes_ref bare_repository = Some ''refs/notes/commits''"
  "map_of (repo_notes bare_repository) ''refs/notes/commits'' = None"
  by (simp_all add: bare_repository_def)

lemma example_repository_notes:
  "repo_notes_ref example_repository = Some ''refs/notes/commits''"
  "map_of (repo_notes example_repository) ''refs/notes/commits'' = Some [(''c1'', ''m1'')]"
  "map_of [(''c1'', ''m1'')] ''c1'' = Some ''m1''"
  by (simp_all add: example_repository_def)

lemma example_checks:
  "git2r_arg_check_hex succeeding_functions (STRSXP [s]) = 0"
  "git2r_error_check_string_arg succeeding_functions (STRSXP [s]) = 0"
  "git2r_error_check_signature_arg succeeding_functions example_signature = 0"
  "git2r_error_check_logical_arg succeeding_functions (LGLSXP [b]) = 0"
  "0 \<le> git2r_signature_from_arg succeeding_functions example_signature"
  "git_oid_fromstr succeeding_functions s = (0, s)"
  by (simp_all add: succeeding_functions_def isString_def length_sexp_def is_S4SXP_def
      example_signature_def)

text \<open>
  C3. For a repository that opens: listing with no reference argument lists the notes of
  the repository's configured default notes reference, one \<open>git_note\<close> object for each
  note of that reference, which is what listing with that reference as the argument
  gives; and when the notes reference (the default one, or the one given) does not
  exist, the listing is the empty list and no error is raised.
\<close>

theorem note_list_default_ref_and_missing_ref:
  assumes "git2r_repository_open ext w repo = Inr (Some (path, r))"
  shows "(repo_notes_ref r = Some d \<and> map_of (repo_notes r) d = Some ns
          \<longrightarrow> git2r_note_list ext w repo R_NilValue
              = Inr (VECSXP [] (map (\<lambda>n. note_object (odb_hash ext (snd n)) (fst n)
                                         (the (map_of ns (fst n))) d repo) ns)))
       \<and> (repo_notes_ref r = Some d \<and> ref \<noteq> R_NilValue \<and> CHAR_STRING_ELT ref 0 = Inr d
            \<and> git2r_error_check_string_arg ext ref = 0
          \<longrightarrow> git2r_note_list ext w repo R_NilValue = git2r_note_list ext w repo ref)
       \<and> (repo_notes_ref r = Some d \<and> map_of (repo_notes r) d = None
          \<longrightarrow> git2r_note_list ext w repo R_NilValue = Inr (VECSXP [] []))
       \<and> (ref \<noteq> R_NilValue \<and> CHAR_STRING_ELT ref 0 = Inr d
            \<and> git2r_error_check_string_arg ext ref = 0 \<and> map_of (repo_notes r) d = None
          \<longrightarrow> git2r_note_list ext w repo ref = Inr (VECSXP [] []))"
proof -
  have present: "repo_notes_ref r = Some d \<and> map_of (repo_notes r) d = Some ns
          \<longrightarrow> git2r_note_list ext w repo R_NilValue
              = Inr (VECSXP [] (map (\<lambda>n. note_object (odb_hash ext (snd n)) (fst n)
                                         (the (map_of ns (fst n))) d repo) ns))"
    using note_list_of_default_ref [OF assms, of d ns] by simp
  have rest: "(repo_notes_ref r = Some d \<and> ref \<noteq> R_NilValue \<and> CHAR_STRING_ELT ref 0 = Inr d
            \<and> git2r_error_check_string_arg ext ref = 0
          \<longrightarrow> git2r_note_list ext w repo R_NilValue = git2r_note_list ext w repo ref)
       \<and> (repo_notes_ref r = Some d \<and> map_of (repo_notes r) d = None
          \<longrightarrow> git2r_note_list ext w repo R_NilValue = Inr (VECSXP [] []))
       \<and> (ref \<noteq> R_NilValue \<and> CHAR_STRING_ELT ref 0 = Inr d
            \<and> git2r_error_check_string_arg ext ref = 0 \<and> map_of (repo_notes r) d = None
          \<longrightarrow> git2r_note_list ext w repo ref = Inr (VECSXP [] []))"
    using assms
    by (simp add: git2r_note_list_def git_note_default_ref_def git_note_foreach_def
        GIT_OK_def GIT_ENOTFOUND_def)
  from present rest show ?thesis by (rule conjI)
qed

theorem note_list_default_ref_and_missing_ref_witness:
  "git2r_repository_open succeeding_functions example_world example_repo
     = Inr (Some (''/home/u/project'', example_repository))
   \<and> repo_notes_ref example_repository = Some ''refs/notes/commits''
   \<and> map_of (repo_notes example_repository) ''refs/notes/commits'' = Some [(''c1'', ''m1'')]
   \<and> git2r_note_list succeeding_functions example_world example_repo R_NilValue
       = Inr (VECSXP [] [note_object ''blob of m1'' ''c1'' ''m1'' ''refs/notes/commits''
                            example_repo])
   \<and> git2r_note_list succeeding_functions example_world example_repo
           (STRSXP [''refs/notes/commits''])
       = Inr (VECSXP [] [note_object ''blob of m1'' ''c1'' ''m1'' ''refs/notes/commits''
                            example_repo])
   \<and> git2r_repository_open succeeding_functions example_world bare_repo
       = Inr (Some (''/srv/bare.git'', bare_repository))
   \<and> repo_notes_ref bare_repository = Some ''refs/notes/commits''
   \<and> map_of (repo_notes bare_repository) ''refs/notes/commits'' = None
   \<and> git2r_note_list succeeding_functions example_world bare_repo R_NilValue = Inr (VECSXP [] [])
   \<and> git2r_note_list succeeding_functions example_world bare_repo (STRSXP [''refs/notes/commits''])
       = Inr (VECSXP [] [])"
proof -
  note b = note_list_default_ref_and_missing_ref [OF git2r_repository_open_bare,
      of "''refs/notes/commits''" "[]" "STRSXP [''refs/notes/commits'']"]
  note x = note_list_default_ref_and_missing_ref [OF git2r_repository_open_example,
      of "''refs/notes/commits''" "[(''c1'', ''m1'')]" "STRSXP [''refs/notes/commits'']"]
  have nn: "STRSXP [''refs/notes/commits''] \<noteq> R_NilValue" by simp
  have h: "odb_hash succeeding_functions ''m1'' = ''blob of m1''"
    by (simp add: succeeding_functions_def)
  from x have "repo_notes_ref example_repository = Some ''refs/notes/commits''
      \<and> map_of (repo_notes example_repository) ''refs/notes/commits'' = Some [(''c1'', ''m1'')]
    \<longrightarrow> git2r_note_list succeeding_functions example_world example_repo R_NilValue
        = Inr (VECSXP [] (map (\<lambda>n. note_object (odb_hash succeeding_functions (snd n)) (fst n)
                                 (the (map_of [(''c1'', ''m1'')] (fst n)))
                                 ''refs/notes/commits'' example_repo) [(''c1'', ''m1'')]))"
    by (rule conjunct1)
  with example_repository_notes(1,2) h
  have l0: "git2r_note_list succeeding_functions example_world example_repo R_NilValue
       = Inr (VECSXP [] [note_object ''blob of m1'' ''c1'' ''m1'' ''refs/notes/commits''
                            example_repo])" by simp
  from x have "repo_notes_ref example_repository = Some ''refs/notes/commits''
      \<and> STRSXP [''refs/notes/commits''] \<noteq> R_NilValue
      \<and> CHAR_STRING_ELT (STRSXP [''refs/notes/commits'']) 0 = Inr ''refs/notes/commits''
      \<and> git2r_error_check_string_arg succeeding_functions (STRSXP [''refs/notes/commits'']) = 0
    \<longrightarrow> git2r_note_list succeeding_functions example_world example_repo R_NilValue
        = git2r_note_list succeeding_functions example_world example_repo
            (STRSXP [''refs/notes/commits''])"
    by (elim conjE)
  with nn CHAR_STRING_ELT_first example_checks(2) example_repository_notes(1)
  have "git2r_note_list succeeding_functions example_world example_repo R_NilValue
        = git2r_note_list succeeding_functions example_world example_repo
            (STRSXP [''refs/notes/commits''])" by simp
  with l0 have l3: "git2r_note_list succeeding_functions example_world example_repo
           (STRSXP [''refs/notes/commits''])
       = Inr (VECSXP [] [note_object ''blob of m1'' ''c1'' ''m1'' ''refs/notes/commits''
                            example_repo])" by simp
  from b have "repo_notes_ref bare_repository = Some ''refs/notes/commits''
      \<and> map_of (repo_notes bare_repository) ''refs/notes/commits'' = None
    \<longrightarrow> git2r_note_list succeeding_functions example_world bare_repo R_NilValue = Inr (VECSXP [] [])"
    by (elim conjE)
  with bare_repository_notes
  have l1: "git2r_note_list succeeding_functions example_world bare_repo R_NilValue
            = Inr (VECSXP [] [])" by simp
  from b have "STRSXP [''refs/notes/commits''] \<noteq> R_NilValue
      \<and> CHAR_STRING_ELT (STRSXP [''refs/notes/commits'']) 0 = Inr ''refs/notes/commits''
      \<and> git2r_error_check_string_arg succeeding_functions (STRSXP [''refs/notes/commits'']) = 0
      \<and> map_of (repo_notes bare_repository) ''refs/notes/commits'' = None
    \<longrightarrow> git2r_note_list succeeding_functions example_world bare_repo
          (STRSXP [''refs/notes/commits'']) = Inr (VECSXP [] [])"
    by (elim conjE)
  with nn CHAR_STRING_ELT_first example_checks(2) bare_repository_notes(2)
  have l2: "git2r_note_list succeeding_functions example_world bare_repo
          (STRSXP [''refs/notes/commits'']) = Inr (VECSXP [] [])" by simp
  from git2r_repository_open_example example_repository_notes(1) example_repository_notes(2)
    l0 l3 git2r_repository_open_bare bare_repository_notes l1 l2
  show ?thesis by (intro conjI)
qed

lemma get_slot_note_object:
  "GET_SLOT (note_object b a m nref repo) ''annotated'' = Inr (STRSXP [a])"
  "GET_SLOT (note_object b a m nref repo) ''message'' = Inr (STRSXP [m])"
  by (simp_all add: note_object_def GET_SLOT_def)

lemma git2r_repository_open_path:
  assumes "git2r_repository_open ext w repo = Inr (Some (path, r))"
  shows "git2r_repository_open ext ((path, r') # w) repo = Inr (Some (path, r'))"
  using assms
  by (auto simp: git2r_repository_open_def git_repository_open_def GIT_OK_def GIT_ENOTFOUND_def
      split: if_splits sum.splits option.splits)

lemma no_other_note_for:
  "filter (\<lambda>n. GET_SLOT n ''annotated'' = Inr (STRSXP [x]))
     (map (\<lambda>n. note_object (f n) (fst n) (g n) nref repo) (filter (\<lambda>n. fst n \<noteq> x) ns)) = []"
  by (auto simp: filter_empty_conv get_slot_note_object)

text \<open>
  C2. When the target object already has a note on the notes reference, creating a note
  with \<open>force = FALSE\<close> raises the library's already-exists error, and with
  \<open>force = TRUE\<close> it returns the new note, after which listing the notes reference
  gives exactly one note for the target, the one with the new message.
\<close>

theorem note_create_on_annotated_object:
  assumes "git2r_arg_check_hex ext hex = 0"
    and "git2r_error_check_string_arg ext message = 0"
    and "git2r_error_check_string_arg ext ref = 0"
    and "git2r_error_check_signature_arg ext author = 0"
    and "git2r_error_check_signature_arg ext committer = 0"
    and "git2r_error_check_logical_arg ext (LGLSXP [False]) = 0"
    and "git2r_error_check_logical_arg ext (LGLSXP [True]) = 0"
    and "git2r_repository_open ext w repo = Inr (Some (path, r))"
    and "0 \<le> git2r_signature_from_arg ext author"
    and "0 \<le> git2r_signature_from_arg ext committer"
    and "CHAR_STRING_ELT hex 0 = Inr h"
    and "git_oid_fromstr ext h = (e, x)"
    and "0 \<le> e"
    and "CHAR_STRING_ELT ref 0 = Inr nref"
    and "CHAR_STRING_ELT message 0 = Inr m"
    and "map_of (repo_notes r) nref = Some ns"
    and "map_of ns x = Some old"
  shows "fst (git2r_note_create ext w repo hex message ref author committer (LGLSXP [False]))
           = Inl (Libgit2_error GIT_EEXISTS)
       \<and> (\<exists>note w' notes.
            git2r_note_create ext w repo hex message ref author committer (LGLSXP [True])
              = (Inr note, w')
            \<and> GET_SLOT note ''annotated'' = Inr (STRSXP [x])
            \<and> GET_SLOT note ''message'' = Inr (STRSXP [m])
            \<and> git2r_note_list ext w' repo ref = Inr (VECSXP [] notes)
            \<and> filter (\<lambda>n. GET_SLOT n ''annotated'' = Inr (STRSXP [x])) notes = [note])"
proof -
  let ?ns' = "(x, m) # filter (\<lambda>n. fst n \<noteq> x) ns"
  let ?r' = "r\<lparr>repo_notes := (nref, ?ns') # repo_notes r\<rparr>"
  let ?note = "note_object (odb_hash ext m) x m nref repo"
  let ?w' = "(path, ?r') # w"
  let ?rest = "map (\<lambda>n. note_object (odb_hash ext (snd n)) (fst n)
                          (the (map_of ?ns' (fst n))) nref repo) (filter (\<lambda>n. fst n \<noteq> x) ns)"
  have refuse: "git_note_create ext r nref x m 0 = (GIT_EEXISTS, odb_hash ext m, r)"
    using assms(16,17) by (simp add: git_note_create_def)
  have accept: "git_note_create ext r nref x m 1 = (GIT_OK, odb_hash ext m, ?r')"
    using assms(16,17) by (simp add: git_note_create_def)
  have read: "git_note_read ?r' nref x = (GIT_OK, Some m)"
    by (simp add: git_note_read_def)
  have init: "git2r_note_init (odb_hash ext m) x ?r' nref repo (NEW_OBJECT ''git_note'')
              = Inr (0, ?note)"
    using read by (simp add: note_init_new_object GIT_OK_def)
  have no: "fst (git2r_note_create ext w repo hex message ref author committer (LGLSXP [False]))
           = Inl (Libgit2_error GIT_EEXISTS)"
    using assms(1-15) refuse
    by (simp add: git2r_note_create_def LOGICAL_0_def GIT_EEXISTS_def)
  have yes: "git2r_note_create ext w repo hex message ref author committer (LGLSXP [True])
              = (Inr ?note, ?w')"
    using assms(1-15) accept init
    by (simp add: git2r_note_create_def LOGICAL_0_def GIT_OK_def)
  have nn: "ref \<noteq> R_NilValue"
    using assms(14) by (auto simp: CHAR_STRING_ELT_def)
  have lst: "git2r_note_list ext ?w' repo ref = Inr (VECSXP [] (?note # ?rest))"
    using note_list_of_present_ref [OF nn assms(3) assms(14)
        git2r_repository_open_path [OF assms(8), of ?r'], of ?ns']
    by simp
  have one: "filter (\<lambda>n. GET_SLOT n ''annotated'' = Inr (STRSXP [x])) (?note # ?rest) = [?note]"
    using no_other_note_for [of x "\<lambda>n. odb_hash ext (snd n)" "\<lambda>n. the (map_of ?ns' (fst n))" nref repo ns]
    by (simp add: get_slot_note_object)
  from yes lst one get_slot_note_object [of "odb_hash ext m" x m nref repo]
  have "\<exists>note w' notes.
            git2r_note_create ext w repo hex message ref author committer (LGLSXP [True])
              = (Inr note, w')
            \<and> GET_SLOT note ''annotated'' = Inr (STRSXP [x])
            \<and> GET_SLOT note ''message'' = Inr (STRSXP [m])
            \<and> git2r_note_list ext w' repo ref = Inr (VECSXP [] notes)
            \<and> filter (\<lambda>n. GET_SLOT n ''annotated'' = Inr (STRSXP [x])) notes = [note]"
    by (intro exI conjI)
  with no show ?thesis by (rule conjI)
qed

theorem note_create_on_annotated_object_witness:
  "git2r_repository_open succeeding_functions example_world example_repo
     = Inr (Some (''/home/u/project'', example_repository))
   \<and> map_of (repo_notes example_repository) ''refs/notes/commits'' = Some [(''c1'', ''m1'')]
   \<and> map_of [(''c1'', ''m1'')] ''c1'' = Some ''m1''
   \<and> fst (git2r_note_create succeeding_functions example_world example_repo (STRSXP [''c1''])
            (STRSXP [''m2'']) (STRSXP [''refs/notes/commits'']) example_signature
            example_signature (LGLSXP [False]))
       = Inl (Libgit2_error GIT_EEXISTS)
   \<and> (\<exists>note w' notes.
        git2r_note_create succeeding_functions example_world example_repo (STRSXP [''c1''])
            (STRSXP [''m2'']) (STRSXP [''refs/notes/commits'']) example_signature
            example_signature (LGLSXP [True])
          = (Inr note, w')
        \<and> GET_SLOT note ''annotated'' = Inr (STRSXP [''c1''])
        \<and> GET_SLOT note ''message'' = Inr (STRSXP [''m2''])
        \<and> git2r_note_list succeeding_functions w' example_repo (STRSXP [''refs/notes/commits''])
            = Inr (VECSXP [] notes)
        \<and> filter (\<lambda>n. GET_SLOT n ''annotated'' = Inr (STRSXP [''c1''])) notes = [note])"
proof -
  note t = note_create_on_annotated_object [OF example_checks(1) example_checks(2)
      example_checks(2) example_checks(3) example_checks(3) example_checks(4) example_checks(4)
      git2r_repository_open_example example_checks(5) example_checks(5)
      CHAR_STRING_ELT_first example_checks(6) order_refl
      CHAR_STRING_ELT_first CHAR_STRING_ELT_first
      example_repository_notes(2) example_repository_notes(3)]
  from t have a: "fst (git2r_note_create succeeding_functions example_world example_repo
            (STRSXP [''c1'']) (STRSXP [''m2'']) (STRSXP [''refs/notes/commits''])
            example_signature example_signature (LGLSXP [False]))
       = Inl (Libgit2_error GIT_EEXISTS)"
    by (rule conjunct1)
  from t have b: "\<exists>note w' notes.
        git2r_note_create succeeding_functions example_world example_repo (STRSXP [''c1''])
            (STRSXP [''m2'']) (STRSXP [''refs/notes/commits'']) example_signature
            example_signature (LGLSXP [True])
          = (Inr note, w')
        \<and> GET_SLOT note ''annotated'' = Inr (STRSXP [''c1''])
        \<and> GET_SLOT note ''message'' = Inr (STRSXP [''m2''])
        \<and> git2r_note_list succeeding_functions w' example_repo (STRSXP [''refs/notes/commits''])
            = Inr (VECSXP [] notes)
        \<and> filter (\<lambda>n. GET_SLOT n ''annotated'' = Inr (STRSXP [''c1''])) notes = [note]"
    by (rule conjunct2)
  from git2r_repository_open_example example_repository_notes(2) example_repository_notes(3) a b
  show ?thesis by (intro conjI)
qed

end
